theory Spec2Isabelle
  imports Main "HOL-Library.Word"
begin

unbundle bit_operations_syntax

section \<open>The RS-DOS filesystem engine of fuse-rsdos\<close>

text \<open>
  A shallow embedding of \<^verbatim>\<open>src/fuse_rsdos/rsdosfs.py\<close> and
  \<^verbatim>\<open>src/fuse_rsdos/writablefs.py\<close>. Python integers are \<^typ>\<open>int\<close>, a
  \<^verbatim>\<open>bytes\<close> object is a list of 8-bit words, the backing store is the byte list of
  a regular image file. Exceptions are values of the type \<open>error\<close>; a function that
  can raise returns \<open>error + 'a\<close>. A generator returns the list of the values it
  yields together with the exception that ended it, if any.
\<close>

subsection \<open>Errors\<close>

datatype corruption =
    GranuleOutOfRange int int  \<comment> \<open>"granule #n corrupt: value 0x.. out of range"\<close>
  | LoopInGranuleMap           \<comment> \<open>"loop in granule map"\<close>

datatype error =
    FilesystemFatalError
  | RecoverableCorruption corruption
  | DiskFullError
  | IndexError
  | AssertionError
  | StructError
  | OSError
  | TypeError
  | ValueError
  | AttributeError string
  | NameError string

subsection \<open>Geometry\<close>

record Geometry =
  sectors_per_track :: int
  sectors_per_granule :: int
  bytes_per_sector :: int
  directory_track :: int
  directory_sectors :: int
  max_granules :: int
  directory_entry_size :: int
  sides :: int

definition geom :: Geometry where
  "geom = \<lparr> sectors_per_track = 18, sectors_per_granule = 9, bytes_per_sector = 256,
      directory_track = 17, directory_sectors = 9, max_granules = 192,
      directory_entry_size = 32, sides = 1 \<rparr>"

definition max_filesystem_sectors :: "Geometry \<Rightarrow> int" where
  "max_filesystem_sectors g = sectors_per_granule g * max_granules g + sectors_per_track g"

definition max_filesystem_bytes :: "Geometry \<Rightarrow> int" where
  "max_filesystem_bytes g = max_filesystem_sectors g * bytes_per_sector g"

definition max_directory_entries :: "Geometry \<Rightarrow> int" where
  "max_directory_entries g = directory_sectors g * bytes_per_sector g div directory_entry_size g"

definition ceildiv :: "int \<Rightarrow> int \<Rightarrow> int" where
  "ceildiv a b = - (a div - b)"

subsection \<open>Bytes and slices\<close>

type_synonym byte = "8 word"
type_synonym bytes = "byte list"

text \<open>Python's \<^verbatim>\<open>xs[:k]\<close> and \<^verbatim>\<open>xs[k:]\<close>; a negative bound counts from the end.\<close>

definition slice_to :: "'a list \<Rightarrow> int \<Rightarrow> 'a list" where
  "slice_to xs k = (if 0 \<le> k then take (nat k) xs else take (nat (int (length xs) + k)) xs)"

definition slice_from :: "'a list \<Rightarrow> int \<Rightarrow> 'a list" where
  "slice_from xs k = (if 0 \<le> k then drop (nat k) xs else drop (nat (int (length xs) + k)) xs)"

definition enumerate_py :: "'a list \<Rightarrow> (int \<times> 'a) list" where
  "enumerate_py xs = zip (map int [0..<length xs]) xs"

definition yield :: "'a \<Rightarrow> 'a list \<times> error option \<Rightarrow> 'a list \<times> error option" where
  "yield x r = (x # fst r, snd r)"

subsection \<open>Directory entries\<close>

record DirectoryEntry =
  de_n :: int
  de_filename :: bytes
  de_extension :: bytes
  de_filetype :: int
  de_ascii_flag :: int
  de_first_granule :: int
  de_last_sector_bytes_used :: int
  de_reserved :: bytes
  de_free :: bool
  de_null :: bool

text \<open>
  \<^verbatim>\<open>unpack("!8s3sBBBH16s", raw)\<close> needs exactly 32 bytes and raises
  \<^verbatim>\<open>struct.error\<close> otherwise; the 16-bit field is big-endian.
\<close>

definition DirectoryEntry_fromraw :: "int \<Rightarrow> bytes \<Rightarrow> error + DirectoryEntry" where
  "DirectoryEntry_fromraw n raw =
     (if length raw \<noteq> 32 then Inl StructError
      else
        let filename = take 8 raw;
            extension = take 3 (drop 8 raw);
            filetype = uint (raw ! 11);
            ascii_flag = uint (raw ! 12);
            first_granule = uint (raw ! 13);
            last_sector_bytes_used = uint (raw ! 14) * 256 + uint (raw ! 15);
            reserved = take 16 (drop 16 raw);
            null = (set raw = {0});
            free = (filename ! 0 = 0 \<or> set filename = {0xff})
        in Inr \<lparr> de_n = n, de_filename = filename, de_extension = extension,
                 de_filetype = filetype, de_ascii_flag = ascii_flag,
                 de_first_granule = first_granule,
                 de_last_sector_bytes_used = last_sector_bytes_used,
                 de_reserved = reserved, de_free = free, de_null = null \<rparr>)"

fun rstrip_space :: "bytes \<Rightarrow> bytes" where
  "rstrip_space xs = rev (dropWhile (\<lambda>c. c = 0x20) (rev xs))"

definition pretty_filename_bytes :: "DirectoryEntry \<Rightarrow> bytes" where
  "pretty_filename_bytes d = rstrip_space (de_filename d) @ [0x2e] @ rstrip_space (de_extension d)"

text \<open>
  The text codec \<^verbatim>\<open>tandycoco-hires\<close> is a parameter: a function from bytes to the
  decoded string.
\<close>

definition pretty_filename :: "(bytes \<Rightarrow> string) \<Rightarrow> DirectoryEntry \<Rightarrow> string" where
  "pretty_filename decode d = decode (pretty_filename_bytes d)"

subsection \<open>Granule map entries\<close>

record GranuleInfo =
  gi_raw_value :: int
  gi_n :: int
  gi_next_n :: "int option"
  gi_sectors_used :: int
  gi_bytes_used :: int
  gi_last :: bool
  gi_free :: bool
  gi_geom :: Geometry

text \<open>
  Both callers hand \<^verbatim>\<open>fromraw\<close> one byte (an element of a \<^verbatim>\<open>bytes\<close> object, or a
  \<^verbatim>\<open>bytes\<close> object of length one), which it unpacks into the integer \<open>b\<close>.
\<close>

definition GranuleInfo_fromraw :: "int \<Rightarrow> byte \<Rightarrow> int \<Rightarrow> Geometry \<Rightarrow> error + GranuleInfo" where
  "GranuleInfo_fromraw n raw_value last_sector_bytes_used g =
     (let b = uint raw_value in
      if 0 \<le> b \<and> b < 0xc0 then
        Inr \<lparr> gi_raw_value = b, gi_n = n, gi_next_n = Some b,
              gi_sectors_used = sectors_per_granule g,
              gi_bytes_used = sectors_per_granule g * bytes_per_sector g,
              gi_last = False, gi_free = False, gi_geom = g \<rparr>
      else if 0xc0 \<le> b \<and> b \<le> 0xc9 then
        (let sectors_used = b AND 0xf in
         if \<not> sectors_used \<le> sectors_per_granule g then Inl AssertionError
         else if sectors_used = 0 \<and> last_sector_bytes_used \<noteq> 0 then Inl AssertionError
         else
           let bytes_used =
                 (if sectors_used = 0 then 0
                  else (sectors_used - 1) * bytes_per_sector g + last_sector_bytes_used)
           in Inr \<lparr> gi_raw_value = b, gi_n = n, gi_next_n = None,
                    gi_sectors_used = sectors_used, gi_bytes_used = bytes_used,
                    gi_last = True, gi_free = False, gi_geom = g \<rparr>)
      else if b = 0xff then
        Inr \<lparr> gi_raw_value = b, gi_n = n, gi_next_n = None,
              gi_sectors_used = 0, gi_bytes_used = 0,
              gi_last = True, gi_free = True, gi_geom = g \<rparr>
      else Inl (RecoverableCorruption (GranuleOutOfRange n b)))"

subsection \<open>Address translation\<close>

type_synonym image = bytes

text \<open>
  The size of the backing store: for a regular file the ioctl fails with ENOTTY and the
  size is found by seeking to the end.
\<close>

definition getsize64 :: "image \<Rightarrow> int" where
  "getsize64 img = int (length img)"

text \<open>The odd-size warnings of the source are diagnostics only and are not modelled.\<close>

definition sector_count :: "image \<Rightarrow> error + int" where
  "sector_count img =
     (let n = getsize64 img;
          n_sectors = n div bytes_per_sector geom
      in if n_sectors < (directory_track geom + 1) * sectors_per_track geom
         then Inl FilesystemFatalError
         else Inr n_sectors)"

definition granule_count :: "image \<Rightarrow> error + int" where
  "granule_count img =
     (case sector_count img of
        Inl e \<Rightarrow> Inl e
      | Inr sc \<Rightarrow> Inr ((sc - sectors_per_track geom) div sectors_per_granule geom))"

definition sector_range_linear :: "int \<Rightarrow> int \<Rightarrow> int \<times> int" where
  "sector_range_linear n cnt =
     (let start = n * bytes_per_sector geom
      in (start, start + bytes_per_sector geom * cnt))"

definition sector_range :: "int \<Rightarrow> int \<Rightarrow> int \<Rightarrow> error + (int \<times> int)" where
  "sector_range cyl secnr cnt =
     (if \<not> 0 \<le> cyl then Inl IndexError
      else if \<not> (1 \<le> secnr \<and> secnr \<le> sectors_per_track geom) then Inl IndexError
      else if \<not> (0 \<le> cnt \<and> cnt \<le> sectors_per_track geom - (secnr - 1)) then Inl IndexError
      else Inr (sector_range_linear (cyl * sectors_per_track geom + (secnr - 1)) cnt))"

definition granule_range_sectors :: "int \<Rightarrow> int \<times> int" where
  "granule_range_sectors granule =
     (let sec_start = granule * sectors_per_granule geom;
          sec_end = (granule + 1) * sectors_per_granule geom
      in if sec_start \<ge> directory_track geom * sectors_per_track geom
         then (sec_start + sectors_per_track geom, sec_end + sectors_per_track geom)
         else (sec_start, sec_end))"

definition granule_range :: "int \<Rightarrow> int \<times> int" where
  "granule_range granule =
     (let (sec_start, sec_end) = granule_range_sectors granule
      in (fst (sector_range_linear sec_start 1), fst (sector_range_linear sec_end 1)))"

definition directory_range :: "error + (int \<times> int)" where
  "directory_range = sector_range (directory_track geom) 3 (directory_sectors geom)"

definition directory_entry_range :: "int \<Rightarrow> error + (int \<times> int)" where
  "directory_entry_range n =
     (case sector_range (directory_track geom) 3 (directory_sectors geom) of
        Inl e \<Rightarrow> Inl e
      | Inr (d_start, d_end) \<Rightarrow>
          let dent_start = d_start + n * directory_entry_size geom;
              dent_end = dent_start + directory_entry_size geom
          in if \<not> (d_start \<le> dent_start \<and> dent_start < d_end)
                \<or> \<not> (d_start \<le> dent_end \<and> dent_end \<le> d_end)
             then Inl IndexError
             else Inr (dent_start, dent_end))"

definition granule_map_range :: "image \<Rightarrow> error + (int \<times> int)" where
  "granule_map_range img =
     (case sector_range (directory_track geom) 2 1 of
        Inl e \<Rightarrow> Inl e
      | Inr (start, _) \<Rightarrow>
          (case granule_count img of
             Inl e \<Rightarrow> Inl e
           | Inr gc \<Rightarrow> Inr (start, start + min gc (max_granules geom))))"

subsection \<open>Positioned reads\<close>

text \<open>
  \<^verbatim>\<open>os.pread\<close> returns the bytes of the file from \<open>offset\<close>, at most \<open>length\<close> of
  them, and fails on a negative argument; the method asserts that nothing is missing.
\<close>

definition pread :: "image \<Rightarrow> int \<Rightarrow> int \<Rightarrow> error + bytes" where
  "pread img len offset =
     (if len < 0 \<or> offset < 0 then Inl OSError
      else
        let data = take (nat len) (drop (nat offset) img)
        in if int (length data) = len then Inr data else Inl AssertionError)"

definition read_granule_map :: "image \<Rightarrow> error + bytes" where
  "read_granule_map img =
     (case granule_map_range img of
        Inl e \<Rightarrow> Inl e
      | Inr (start, end) \<Rightarrow> pread img (end - start) start)"

definition read_directory_entry :: "image \<Rightarrow> int \<Rightarrow> error + bytes" where
  "read_directory_entry img n =
     (case directory_entry_range n of
        Inl e \<Rightarrow> Inl e
      | Inr (start, end) \<Rightarrow> pread img (end - start) start)"

definition read_granule :: "image \<Rightarrow> int \<Rightarrow> error + bytes" where
  "read_granule img n =
     (case granule_map_range img of
        Inl e \<Rightarrow> Inl e
      | Inr (gmap_start, gmap_end) \<Rightarrow>
          let start = gmap_start + n;
              end = start + 1
          in if \<not> (gmap_start \<le> start \<and> start < gmap_end)
                \<or> \<not> (gmap_start \<le> end \<and> end \<le> gmap_end)
             then Inl IndexError
             else pread img (end - start) start)"

subsection \<open>Counting granules\<close>

fun count_granules_loop :: "(int \<times> byte) list \<Rightarrow> int \<times> int \<times> int \<Rightarrow> error + (int \<times> int \<times> int)" where
  "count_granules_loop [] acc = Inr acc"
| "count_granules_loop ((i, c) # rest) (total_count, free_count, used_count) =
     (case GranuleInfo_fromraw i c (bytes_per_sector geom) geom of
        Inl e \<Rightarrow> Inl e
      | Inr gi \<Rightarrow>
          if gi_free gi
          then count_granules_loop rest (total_count + 1, free_count + 1, used_count)
          else count_granules_loop rest (total_count + 1, free_count, used_count + 1))"

definition count_granules :: "image \<Rightarrow> error + (int \<times> int \<times> int)" where
  "count_granules img =
     (case read_granule_map img of
        Inl e \<Rightarrow> Inl e
      | Inr gmap \<Rightarrow> count_granules_loop (enumerate_py gmap) (0, 0, 0))"

subsection \<open>Enumerating the directory\<close>

definition range_py :: "int \<Rightarrow> int \<Rightarrow> int list" where
  "range_py a b = [a..b - 1]"

fun iter_directory_entries_loop ::
  "image \<Rightarrow> bool \<Rightarrow> int list \<Rightarrow> DirectoryEntry list \<times> error option" where
  "iter_directory_entries_loop img include_free [] = ([], None)"
| "iter_directory_entries_loop img include_free (i # rest) =
     (case read_directory_entry img i of
        Inl e \<Rightarrow> ([], Some e)
      | Inr raw \<Rightarrow>
          (case DirectoryEntry_fromraw i raw of
             Inl e \<Rightarrow> ([], Some e)
           | Inr dentry \<Rightarrow>
               if de_null dentry then iter_directory_entries_loop img include_free rest
               else if de_free dentry \<and> \<not> include_free
               then iter_directory_entries_loop img include_free rest
               else yield dentry (iter_directory_entries_loop img include_free rest)))"

definition iter_directory_entries :: "image \<Rightarrow> bool \<Rightarrow> DirectoryEntry list \<times> error option" where
  "iter_directory_entries img include_free =
     iter_directory_entries_loop img include_free (range_py 0 (max_directory_entries geom))"

fun count_directory_entries_loop :: "DirectoryEntry list \<Rightarrow> int \<times> int \<times> int \<Rightarrow> int \<times> int \<times> int" where
  "count_directory_entries_loop [] acc = acc"
| "count_directory_entries_loop (dentry # rest) (total_count, free_count, used_count) =
     (if de_free dentry
      then count_directory_entries_loop rest (total_count + 1, free_count + 1, used_count)
      else count_directory_entries_loop rest (total_count + 1, free_count, used_count + 1))"

definition count_directory_entries :: "image \<Rightarrow> error + (int \<times> int \<times> int)" where
  "count_directory_entries img =
     (case iter_directory_entries img True of
        (dentries, Some e) \<Rightarrow> Inl e
      | (dentries, None) \<Rightarrow> Inr (count_directory_entries_loop dentries (0, 0, 0)))"

text \<open>The lookup returns at the first match and so never sees a later failure of the generator.\<close>

definition directory_lookup ::
  "(bytes \<Rightarrow> string) \<Rightarrow> image \<Rightarrow> string \<Rightarrow> error + DirectoryEntry option" where
  "directory_lookup decode img name =
     (case iter_directory_entries img False of
        (dentries, err) \<Rightarrow>
          (case filter (\<lambda>dentry. pretty_filename decode dentry = name) dentries of
             dentry # _ \<Rightarrow> Inr (Some dentry)
           | [] \<Rightarrow> (case err of Some e \<Rightarrow> Inl e | None \<Rightarrow> Inr None)))"

subsection \<open>Walking a granule chain\<close>

definition GranuleInfo_fromraw_bytes :: "int \<Rightarrow> bytes \<Rightarrow> int \<Rightarrow> Geometry \<Rightarrow> error + GranuleInfo" where
  "GranuleInfo_fromraw_bytes n raw_value last_sector_bytes_used g =
     (case raw_value of
        [c] \<Rightarrow> GranuleInfo_fromraw n c last_sector_bytes_used g
      | _ \<Rightarrow> Inl ValueError)"

function iter_granules_loop ::
  "image \<Rightarrow> int \<Rightarrow> int set \<Rightarrow> int \<Rightarrow> GranuleInfo list \<times> error option" where
  "iter_granules_loop img last_sector_bytes_used seen n =
     (case read_granule img n of
        Inl e \<Rightarrow> ([], Some e)
      | Inr raw_value \<Rightarrow>
          (case GranuleInfo_fromraw_bytes n raw_value last_sector_bytes_used geom of
             Inl e \<Rightarrow> ([], Some e)
           | Inr gi \<Rightarrow>
               if gi_last gi then ([gi], None)
               else
                 (case gi_next_n gi of
                    None \<Rightarrow> ([gi], Some TypeError)
                  | Some n' \<Rightarrow>
                      if n' \<in> insert n seen
                      then ([gi], Some (RecoverableCorruption LoopInGranuleMap))
                      else yield gi
                             (iter_granules_loop img last_sector_bytes_used (insert n seen) n'))))"
  by pat_completeness auto
termination
proof (relation "measure (\<lambda>(img, l, seen, n).
         2 * card ({0..<192} - seen) + (if n \<in> seen then 1 else 0))", goal_cases)
  case 1
  show ?case by simp
next
  case (2 img l seen n raw gi n')
  from \<open>read_granule img n = Inr raw\<close> have rng: "n \<in> {0..<192}"
    by (auto simp: read_granule_def granule_map_range_def sector_range_def
          sector_range_linear_def geom_def Let_def
          split: sum.splits prod.splits if_splits)
  have fin: "finite ({0..<192} - seen :: int set)" by simp
  show ?case
  proof (cases "n \<in> seen")
    case True
    then have "insert n seen = seen" by auto
    with True 2 show ?thesis by simp
  next
    case False
    with rng have mem: "n \<in> {0..<192} - seen" by simp
    have eq: "{0..<192} - insert n seen = ({0..<192} - seen) - {n}" by auto
    have "card ({0..<192} - insert n seen) < card ({0..<192} - seen)"
      unfolding eq by (rule card_Diff1_less [OF fin mem])
    with False 2 show ?thesis by simp
  qed
qed

definition iter_granules :: "image \<Rightarrow> int \<Rightarrow> int \<Rightarrow> GranuleInfo list \<times> error option" where
  "iter_granules img first_granule last_sector_bytes_used =
     iter_granules_loop img last_sector_bytes_used {} first_granule"

definition iter_dentry_granules :: "image \<Rightarrow> DirectoryEntry \<Rightarrow> GranuleInfo list \<times> error option" where
  "iter_dentry_granules img dentry =
     iter_granules img (de_first_granule dentry) (de_last_sector_bytes_used dentry)"

subsection \<open>Reading file contents\<close>

definition compute_file_offset :: "DirectoryEntry \<Rightarrow> int \<Rightarrow> int \<times> int \<times> int" where
  "compute_file_offset dentry offset =
     (let granule_offset = offset div (bytes_per_sector geom * sectors_per_granule geom);
          x = offset mod (bytes_per_sector geom * sectors_per_granule geom)
      in (granule_offset, x div bytes_per_sector geom, x mod bytes_per_sector geom))"

text \<open>
  The body of the \<^verbatim>\<open>for\<close> loop of \<^verbatim>\<open>iter_file_contents\<close>, run over the granules
  the walk yields; \<open>gen_err\<close> is the exception that ends the walk, raised once every
  yielded granule has been handled. With \<^verbatim>\<open>length=None\<close> the subtraction after the
  first \<^verbatim>\<open>yield\<close> is a \<^verbatim>\<open>TypeError\<close>.
\<close>

fun iter_file_contents_loop ::
  "image \<Rightarrow> int \<Rightarrow> int \<Rightarrow> int option \<Rightarrow> GranuleInfo list \<Rightarrow> error option
     \<Rightarrow> bytes list \<times> error option" where
  "iter_file_contents_loop img g0 b0 bytes_remaining [] gen_err = ([], gen_err)"
| "iter_file_contents_loop img g0 b0 bytes_remaining (gi # rest) gen_err =
     (if gi_free gi then ([], Some AssertionError)
      else if gi_n gi < g0 then iter_file_contents_loop img g0 b0 bytes_remaining rest gen_err
      else
        let (sec_start, sec_end) = granule_range_sectors (gi_n gi);
            (start, end) = sector_range_linear sec_start (gi_sectors_used gi)
        in (case pread img (end - start) start of
              Inl e \<Rightarrow> ([], Some e)
            | Inr data0 \<Rightarrow>
               (let data1 = slice_to data0 (gi_bytes_used gi);
                    data2 = (if gi_n gi = g0 then slice_from data1 b0 else data1);
                    data = (case bytes_remaining of
                              None \<Rightarrow> data2
                            | Some r \<Rightarrow> if int (length data2) > r then slice_to data2 r else data2)
                in (case bytes_remaining of
                      None \<Rightarrow> ([data], Some TypeError)
                    | Some r \<Rightarrow>
                        yield data
                          (iter_file_contents_loop img g0 b0 (Some (r - int (length data)))
                             rest gen_err)))))"

definition iter_file_contents ::
  "image \<Rightarrow> DirectoryEntry \<Rightarrow> int option \<Rightarrow> int \<Rightarrow> bytes list \<times> error option" where
  "iter_file_contents img dentry len offset =
     (let g0 = offset div (bytes_per_sector geom * sectors_per_granule geom);
          b0 = offset mod (bytes_per_sector geom * sectors_per_granule geom)
      in case iter_dentry_granules img dentry of
           (gis, gen_err) \<Rightarrow> iter_file_contents_loop img g0 b0 len gis gen_err)"

definition pread_file :: "image \<Rightarrow> DirectoryEntry \<Rightarrow> int option \<Rightarrow> int \<Rightarrow> error + bytes" where
  "pread_file img dentry len offset =
     (case iter_file_contents img dentry len offset of
        (chunks, Some e) \<Rightarrow> Inl e
      | (chunks, None) \<Rightarrow> Inr (concat chunks))"

definition get_file_sizes :: "image \<Rightarrow> DirectoryEntry \<Rightarrow> error + (int \<times> int \<times> int)" where
  "get_file_sizes img dentry =
     (case iter_dentry_granules img dentry of
        (gis, Some e) \<Rightarrow> Inl e
      | (gis, None) \<Rightarrow>
          let logical_size = sum_list (map gi_bytes_used gis);
              allocated_granules = int (length gis);
              allocated_sectors = allocated_granules * sectors_per_granule geom
          in Inr (logical_size, bytes_per_sector geom, allocated_sectors))"

definition get_sector_size :: int where
  "get_sector_size = bytes_per_sector geom"

definition get_directory_size :: int where
  "get_directory_size = directory_sectors geom * bytes_per_sector geom"

subsection \<open>Filesystem statistics\<close>

record FilesystemStats =
  fs_total_granule_count :: int
  fs_free_granule_count :: int
  fs_used_granule_count :: int
  fs_total_direntry_count :: int
  fs_free_direntry_count :: int
  fs_used_direntry_count :: int
  fs_size_in_granules :: int
  fs_sectors_per_track :: int
  fs_sectors_per_granule :: int
  fs_bytes_per_sector :: int

text \<open>
  A name that is not a local variable of a function is looked up among the names bound
  at module level, then among the builtins. \<^verbatim>\<open>rsdosfs.py\<close> binds at module level
  only the modules and functions it imports, its classes and the function
  \<^verbatim>\<open>ceildiv\<close>; \<^verbatim>\<open>writablefs.py\<close> imports these names and binds one more class.
  So no module-level name of either file is bound to an integer, and the lookup of any
  other name raises \<^verbatim>\<open>NameError\<close>.
\<close>

definition module_globals :: "string \<Rightarrow> int option" where
  "module_globals = (\<lambda>name. None)"

definition load_global :: "string \<Rightarrow> error + int" where
  "load_global name =
     (case module_globals name of None \<Rightarrow> Inl (NameError name) | Some v \<Rightarrow> Inr v)"

definition get_fs_stats :: "image \<Rightarrow> error + FilesystemStats" where
  "get_fs_stats img =
     (case count_granules img of
        Inl e \<Rightarrow> Inl e
      | Inr (g_total, g_free, g_used) \<Rightarrow>
     (case count_directory_entries img of
        Inl e \<Rightarrow> Inl e
      | Inr (d_total, d_free, d_used) \<Rightarrow>
     (case sector_count img of
        Inl e \<Rightarrow> Inl e
      | Inr sc \<Rightarrow>
     (case load_global ''sectors_per_granule'' of
        Inl e \<Rightarrow> Inl e
      | Inr spg \<Rightarrow>
          Inr \<lparr> fs_total_granule_count = g_total,
                fs_free_granule_count = g_free,
                fs_used_granule_count = g_used,
                fs_total_direntry_count = d_total,
                fs_free_direntry_count = d_free,
                fs_used_direntry_count = d_used,
                fs_size_in_granules = ceildiv sc spg,
                fs_sectors_per_track = sectors_per_track geom,
                fs_sectors_per_granule = sectors_per_granule geom,
                fs_bytes_per_sector = bytes_per_sector geom \<rparr>))))"

subsection \<open>The write path\<close>

definition find_free_direntry :: "image \<Rightarrow> error + DirectoryEntry" where
  "find_free_direntry img =
     (case iter_directory_entries img True of
        (dentries, err) \<Rightarrow>
          (case filter de_free dentries of
             direntry # _ \<Rightarrow> Inr direntry
           | [] \<Rightarrow> (case err of Some e \<Rightarrow> Inl e | None \<Rightarrow> Inl DiskFullError)))"

text \<open>
  \<^verbatim>\<open>write_new_file\<close> holds \<^verbatim>\<open>self.lock\<close>, a non-reentrant \<^verbatim>\<open>threading.Lock\<close>,
  while \<^verbatim>\<open>_write_new_file\<close> runs. Sizing the store of a regular file takes the same
  lock again in \<^verbatim>\<open>_getsize64_noioctl\<close>, so under the lock that call blocks for ever. In
  the write path a result is an option, and \<open>None\<close> stands for a call that does not
  return.
\<close>

definition getsize64_locked :: "image \<Rightarrow> int option" where
  "getsize64_locked img = None"

text \<open>
  \<^verbatim>\<open>read_granule_map\<close> as \<^verbatim>\<open>_find_free_granules\<close> calls it, under the lock:
  \<^verbatim>\<open>granule_map_range\<close> first computes the start of the map and then asks for the
  granule count, which sizes the store.
\<close>

definition read_granule_map_locked :: "image \<Rightarrow> (error + bytes) option" where
  "read_granule_map_locked img =
     (case sector_range (directory_track geom) 2 1 of
        Inl e \<Rightarrow> Some (Inl e)
      | Inr (start, _) \<Rightarrow>
          (case getsize64_locked img of
             None \<Rightarrow> None
           | Some n \<Rightarrow> Some (read_granule_map img)))"

text \<open>
  Once it has the map, the first pass through the loop of \<^verbatim>\<open>_find_free_granules\<close>
  evaluates the global name \<^verbatim>\<open>bytes_per_sector\<close>, and then calls
  \<^verbatim>\<open>GranuleInfo.fromraw\<close> without its keyword-only argument \<^verbatim>\<open>geom\<close>, a
  \<^verbatim>\<open>TypeError\<close>; over an empty map the \<^verbatim>\<open>else\<close> of the loop raises
  \<^verbatim>\<open>DiskFullError\<close>.
\<close>

definition find_free_granules :: "image \<Rightarrow> int \<Rightarrow> (error + int list) option" where
  "find_free_granules img cnt =
     (case read_granule_map_locked img of
        None \<Rightarrow> None
      | Some (Inl e) \<Rightarrow> Some (Inl e)
      | Some (Inr gmap) \<Rightarrow>
          (case enumerate_py gmap of
             [] \<Rightarrow> Some (Inl DiskFullError)
           | (n, c) # _ \<Rightarrow>
               (case load_global ''bytes_per_sector'' of
                  Inl e \<Rightarrow> Some (Inl e)
                | Inr bps \<Rightarrow> Some (Inl TypeError))))"

text \<open>
  \<^verbatim>\<open>_write_new_file\<close>: the lock is held, so the assertion passes. The name
  \<^verbatim>\<open>length\<close> is a local variable of \<^verbatim>\<open>write_new_file\<close> only, so here it is a
  global name, like \<^verbatim>\<open>bytes_per_sector\<close> and \<^verbatim>\<open>sectors_per_granule\<close>. The
  class \<^verbatim>\<open>DirectoryEntry\<close> has no method \<^verbatim>\<open>clear\<close>, so no run gets past
  \<^verbatim>\<open>direntry.clear()\<close> and no statement after it is reached.
\<close>

definition write_new_file_locked ::
  "image \<Rightarrow> bytes \<Rightarrow> bytes \<Rightarrow> int \<Rightarrow> int \<Rightarrow> bytes \<Rightarrow> (error + image) option" where
  "write_new_file_locked img filename extension filetype ascii_flag content =
     (case load_global ''length'' of
        Inl e \<Rightarrow> Some (Inl e)
      | Inr len \<Rightarrow>
     (case load_global ''bytes_per_sector'' of
        Inl e \<Rightarrow> Some (Inl e)
      | Inr bps \<Rightarrow>
     (case load_global ''sectors_per_granule'' of
        Inl e \<Rightarrow> Some (Inl e)
      | Inr spg \<Rightarrow>
          let granules_needed = ceildiv len (bps * spg)
          in (case find_free_granules img granules_needed of
                None \<Rightarrow> None
              | Some (Inl e) \<Rightarrow> Some (Inl e)
              | Some (Inr granules) \<Rightarrow>
                  (case find_free_direntry img of
                     Inl e \<Rightarrow> Some (Inl e)
                   | Inr direntry \<Rightarrow> Some (Inl (AttributeError ''clear'')))))))"

definition write_new_file ::
  "image \<Rightarrow> bytes \<Rightarrow> bytes \<Rightarrow> int \<Rightarrow> int \<Rightarrow> bytes \<Rightarrow> (error + image) option" where
  "write_new_file img filename extension filetype ascii_flag content =
     write_new_file_locked img filename extension filetype ascii_flag content"

subsection \<open>An example image\<close>

text \<open>
  An 18-track image (82944 bytes, 34 granules). Its granule map holds a one-sector file in
  granule 1, a two-granule file in granules 2 and 3, the cycle 5, 9, 5 and the chain 6, 7
  that runs into the free granule 7. Directory slot 0 names the file in granule 1 (100
  bytes in its last sector), slot 1 is all zero, slot 2 names the file in granules 2 and
  3, slot 3 starts with a zero byte and every other slot is all 0xFF.
\<close>

definition example_gmap :: bytes where
  "example_gmap = [0xff, 0xc1, 3, 0xc2, 0xff, 9, 7, 0xff, 0xff, 5] @ replicate 246 0xff"

definition example_slot0 :: bytes where
  "example_slot0 = [0x41, 0x20, 0x20, 0x20, 0x20, 0x20, 0x20, 0x20, 0x42, 0x41, 0x53,
                    0, 0, 1, 0, 100] @ replicate 16 0"

definition example_slot2 :: bytes where
  "example_slot2 = [0x42, 0x20, 0x20, 0x20, 0x20, 0x20, 0x20, 0x20, 0x42, 0x49, 0x4e,
                    2, 0, 2, 1, 0] @ replicate 16 0"

definition example_slot3 :: bytes where
  "example_slot3 = [0, 0x43, 0x20, 0x20, 0x20, 0x20, 0x20, 0x20, 0x42, 0x49, 0x4e,
                    2, 0, 4, 0, 0] @ replicate 16 0"

definition example_image :: image where
  "example_image =
     replicate 78336 0x41 @ replicate 256 0 @ example_gmap
       @ example_slot0 @ replicate 32 0 @ example_slot2 @ example_slot3
       @ replicate 2176 0xff @ replicate 1792 0"

definition example_dentry :: DirectoryEntry where
  "example_dentry =
     \<lparr> de_n = 0, de_filename = [0x41, 0x20, 0x20, 0x20, 0x20, 0x20, 0x20, 0x20],
       de_extension = [0x42, 0x41, 0x53], de_filetype = 0, de_ascii_flag = 0,
       de_first_granule = 1, de_last_sector_bytes_used = 100,
       de_reserved = replicate 16 0, de_free = False, de_null = False \<rparr>"

text \<open>
  A directory entry, as a caller may pass it to the reader, whose chain starts at granule 6
  of the example image: the chain that runs into the free granule 7.
\<close>

definition example_dentry_free_chain :: DirectoryEntry where
  "example_dentry_free_chain =
     \<lparr> de_n = 4, de_filename = [0x44, 0x20, 0x20, 0x20, 0x20, 0x20, 0x20, 0x20],
       de_extension = [0x42, 0x41, 0x53], de_filetype = 0, de_ascii_flag = 0,
       de_first_granule = 6, de_last_sector_bytes_used = 0,
       de_reserved = replicate 16 0, de_free = False, de_null = False \<rparr>"

subsection \<open>A freshly formatted image\<close>

text \<open>An 18-track image in which every byte is 0xFF: all granules and directory slots free.\<close>

definition blank_image :: image where
  "blank_image = replicate 82944 0xff"

subsection \<open>Invariants used in the proofs\<close>

text \<open>
  What holds of the granules \<open>gis\<close> and the exception \<open>err\<close> that a walk started at
  \<open>n\<close> with the visited set \<open>seen\<close> produces.
\<close>

definition walk_inv ::
  "image \<Rightarrow> int \<Rightarrow> int set \<Rightarrow> int \<Rightarrow> GranuleInfo list \<Rightarrow> error option \<Rightarrow> bool" where
  "walk_inv img l seen n gis err \<longleftrightarrow>
     (\<forall>gi\<in>set gis. \<exists>c. read_granule img (gi_n gi) = Inr [c]
         \<and> GranuleInfo_fromraw (gi_n gi) c l geom = Inr gi)
   \<and> (\<forall>gi\<in>set (butlast gis). \<not> gi_last gi)
   \<and> (err = None \<longleftrightarrow> gis \<noteq> [] \<and> gi_last (last gis))
   \<and> (n \<notin> seen \<longrightarrow> distinct (map gi_n gis) \<and> set (map gi_n gis) \<inter> seen = {})
   \<and> (err = Some (RecoverableCorruption LoopInGranuleMap) \<longleftrightarrow>
        gis \<noteq> [] \<and> \<not> gi_last (last gis)
        \<and> (\<exists>m\<in>seen \<union> set (map gi_n gis). gi_next_n (last gis) = Some m))
   \<and> (\<forall>i. Suc i < length gis \<longrightarrow> gi_next_n (gis ! i) = Some (gi_n (gis ! Suc i)))
   \<and> (gis \<noteq> [] \<longrightarrow> gi_n (hd gis) = n)"

text \<open>A granule is readable when it was decoded from the map of the image and is not free.\<close>

definition valid_gi :: "image \<Rightarrow> int \<Rightarrow> GranuleInfo \<Rightarrow> bool" where
  "valid_gi img l gi \<longleftrightarrow>
     \<not> gi_free gi \<and> (\<exists>c. read_granule img (gi_n gi) = Inr [c]
                       \<and> GranuleInfo_fromraw (gi_n gi) c l geom = Inr gi)"

section \<open>Lemmas about the model\<close>

lemma geom_simps:
  "sectors_per_track geom = 18" "sectors_per_granule geom = 9" "bytes_per_sector geom = 256"
  "directory_track geom = 17" "directory_sectors geom = 9" "max_granules geom = 192"
  "directory_entry_size geom = 32" "sides geom = 1"
  by (simp_all add: geom_def)

subsection \<open>Reads and decoded entries\<close>

declare iter_granules_loop.simps [simp del]

lemma pread_in_range:
  "0 \<le> len \<Longrightarrow> 0 \<le> offset \<Longrightarrow> offset + len \<le> int (length img) \<Longrightarrow>
     pread img len offset = Inr (take (nat len) (drop (nat offset) img))"
  by (auto simp: pread_def Let_def min_def split: if_splits)

lemma pread_length: "pread img len offset = Inr data \<Longrightarrow> int (length data) = len"
  by (auto simp: pread_def Let_def split: if_splits)

lemma granule_map_range_Inr:
  "granule_map_range img = Inr (s, e) \<Longrightarrow>
     s = 78592 \<and> (\<exists>sc. sector_count img = Inr sc \<and> e = s + min ((sc - 18) div 9) 192)"
  by (auto simp: granule_map_range_def granule_count_def sector_range_def
        sector_range_linear_def geom_simps Let_def split: sum.splits if_splits)

lemma sector_count_Inr:
  "sector_count img = Inr sc \<Longrightarrow> 324 \<le> sc \<and> sc * 256 \<le> int (length img)"
  by (auto simp: sector_count_def getsize64_def geom_simps Let_def split: if_splits)

lemma read_granule_Inr:
  assumes "read_granule img n = Inr raw"
  shows "\<exists>sc c. sector_count img = Inr sc \<and> 0 \<le> n \<and> n < min ((sc - 18) div 9) 192 \<and> raw = [c]"
proof -
  from assms obtain s e where gmr: "granule_map_range img = Inr (s, e)"
    and rng: "s \<le> s + n" "s + n < e" and pr: "pread img 1 (s + n) = Inr raw"
    by (auto simp: read_granule_def Let_def split: sum.splits if_splits)
  from granule_map_range_Inr [OF gmr] obtain sc where
    sc: "sector_count img = Inr sc" "e = s + min ((sc - 18) div 9) 192" by auto
  from pread_length [OF pr] have "length raw = 1" by simp
  then obtain c where "raw = [c]" by (cases raw) auto
  with sc rng show ?thesis by auto
qed

lemma fromraw_n: "GranuleInfo_fromraw n c l g = Inr gi \<Longrightarrow> gi_n gi = n"
  by (auto simp: GranuleInfo_fromraw_def Let_def split: if_splits)

lemma fromraw_not_loop: "GranuleInfo_fromraw n c l g \<noteq> Inl (RecoverableCorruption LoopInGranuleMap)"
  by (auto simp: GranuleInfo_fromraw_def Let_def split: if_splits)

lemma read_granule_not_loop: "read_granule img n \<noteq> Inl (RecoverableCorruption LoopInGranuleMap)"
  by (auto simp: read_granule_def granule_map_range_def granule_count_def sector_count_def
        sector_range_def pread_def Let_def split: sum.splits if_splits prod.splits)

text \<open>The result of a walk, by cases on its first step.\<close>

lemma iter_granules_loop_cases:
  assumes "iter_granules_loop img l seen n = (gis, err)"
  obtains
    (fail) e where "gis = []" "err = Some e" "e \<noteq> RecoverableCorruption LoopInGranuleMap"
  | (stop) c gi where "read_granule img n = Inr [c]" "GranuleInfo_fromraw n c l geom = Inr gi"
      "gi_last gi" "gis = [gi]" "err = None"
  | (type_error) c gi where "read_granule img n = Inr [c]" "GranuleInfo_fromraw n c l geom = Inr gi"
      "\<not> gi_last gi" "gi_next_n gi = None" "gis = [gi]" "err = Some TypeError"
  | (loop) c gi n' where "read_granule img n = Inr [c]" "GranuleInfo_fromraw n c l geom = Inr gi"
      "\<not> gi_last gi" "gi_next_n gi = Some n'" "n' \<in> insert n seen" "gis = [gi]"
      "err = Some (RecoverableCorruption LoopInGranuleMap)"
  | (step) c gi n' gis' where "read_granule img n = Inr [c]" "GranuleInfo_fromraw n c l geom = Inr gi"
      "\<not> gi_last gi" "gi_next_n gi = Some n'" "n' \<notin> insert n seen"
      "iter_granules_loop img l (insert n seen) n' = (gis', err)" "gis = gi # gis'"
proof (cases "read_granule img n")
  case (Inl e)
  with assms read_granule_not_loop [of img n] show ?thesis
    by (intro fail [of e]) (auto simp: iter_granules_loop.simps [of img l seen n])
next
  case (Inr raw)
  then obtain c where raw: "raw = [c]" using read_granule_Inr by blast
  show ?thesis
  proof (cases "GranuleInfo_fromraw n c l geom")
    case (Inl e)
    with assms Inr raw fromraw_not_loop [of n c l geom] show ?thesis
      by (intro fail [of e])
         (auto simp: iter_granules_loop.simps [of img l seen n] GranuleInfo_fromraw_bytes_def)
  next
    case gi: (Inr gi)
    show ?thesis
    proof (cases "gi_last gi")
      case True
      with assms Inr raw gi show ?thesis
        by (intro stop [of c gi])
           (auto simp: iter_granules_loop.simps [of img l seen n] GranuleInfo_fromraw_bytes_def)
    next
      case False
      show ?thesis
      proof (cases "gi_next_n gi")
        case None
        with assms Inr raw gi False show ?thesis
          by (intro type_error [of c gi])
             (auto simp: iter_granules_loop.simps [of img l seen n] GranuleInfo_fromraw_bytes_def)
      next
        case (Some n')
        show ?thesis
        proof (cases "n' \<in> insert n seen")
          case True
          with assms Inr raw gi False Some show ?thesis
            by (intro loop [of c gi n'])
               (auto simp: iter_granules_loop.simps [of img l seen n] GranuleInfo_fromraw_bytes_def)
        next
          case notin: False
          obtain gis' err' where rec: "iter_granules_loop img l (insert n seen) n' = (gis', err')"
            by (cases "iter_granules_loop img l (insert n seen) n'") auto
          with assms Inr raw gi False Some notin show ?thesis
            by (intro step [of c gi n' gis'])
               (auto simp: iter_granules_loop.simps [of img l seen n] GranuleInfo_fromraw_bytes_def
                  yield_def)
        qed
      qed
    qed
  qed
qed

subsection \<open>The invariant of the walk\<close>

lemma walk_inv_step:
  assumes rd: "read_granule img n = Inr [c]" and fr: "GranuleInfo_fromraw n c l geom = Inr gi"
    and nl: "\<not> gi_last gi" and nx: "gi_next_n gi = Some n'" and notin: "n' \<notin> insert n seen"
    and ih: "walk_inv img l (insert n seen) n' gis' err"
  shows "walk_inv img l seen n (gi # gis') err"
proof -
  have gn: "gi_n gi = n" using fr by (rule fromraw_n)
  show ?thesis
  proof (cases gis')
    case Nil
    with ih rd fr nl nx notin gn show ?thesis
      by (auto simp: walk_inv_def)
  next
    case (Cons g' rest)
    with ih have hd: "gi_n g' = n'" by (simp add: walk_inv_def)
    from ih notin have d: "distinct (map gi_n gis')" "set (map gi_n gis') \<inter> insert n seen = {}"
      by (auto simp: walk_inv_def)
    have links: "\<forall>i. Suc i < length (gi # gis') \<longrightarrow>
        gi_next_n ((gi # gis') ! i) = Some (gi_n ((gi # gis') ! Suc i))"
    proof (intro allI impI)
      fix i assume "Suc i < length (gi # gis')"
      then show "gi_next_n ((gi # gis') ! i) = Some (gi_n ((gi # gis') ! Suc i))"
        using ih nx hd Cons by (cases i) (auto simp: walk_inv_def)
    qed
    have a: "\<forall>g\<in>set (gi # gis'). \<exists>c. read_granule img (gi_n g) = Inr [c]
         \<and> GranuleInfo_fromraw (gi_n g) c l geom = Inr g"
      using ih rd fr gn by (auto simp: walk_inv_def)
    have b: "\<forall>g\<in>set (butlast (gi # gis')). \<not> gi_last g"
      using ih nl Cons by (auto simp: walk_inv_def)
    have c: "err = None \<longleftrightarrow> gi # gis' \<noteq> [] \<and> gi_last (last (gi # gis'))"
      using ih Cons by (auto simp: walk_inv_def)
    have dd: "n \<notin> seen \<longrightarrow> distinct (map gi_n (gi # gis')) \<and> set (map gi_n (gi # gis')) \<inter> seen = {}"
      using d gn by auto
    have e: "err = Some (RecoverableCorruption LoopInGranuleMap) \<longleftrightarrow>
        gi # gis' \<noteq> [] \<and> \<not> gi_last (last (gi # gis'))
        \<and> (\<exists>m\<in>seen \<union> set (map gi_n (gi # gis')). gi_next_n (last (gi # gis')) = Some m)"
    proof -
      from ih have A: "err = Some (RecoverableCorruption LoopInGranuleMap) \<longleftrightarrow>
        gis' \<noteq> [] \<and> \<not> gi_last (last gis')
        \<and> (\<exists>m\<in>insert n seen \<union> set (map gi_n gis'). gi_next_n (last gis') = Some m)"
        by (simp add: walk_inv_def)
      have B: "seen \<union> set (map gi_n (gi # gis')) = insert n seen \<union> set (map gi_n gis')"
        using gn by auto
      have L: "last (gi # gis') = last gis'" "gis' \<noteq> []" using Cons by simp_all
      show ?thesis unfolding L(1) B using A L(2) by blast
    qed
    have f: "gi # gis' \<noteq> [] \<longrightarrow> gi_n (hd (gi # gis')) = n" using gn by simp
    show ?thesis unfolding walk_inv_def using a b c dd e links f by blast
  qed
qed

lemma walk_inv_loop: "walk_inv img l seen n gis err"
  if "iter_granules_loop img l seen n = (gis, err)"
  using that
proof (induction img l seen n arbitrary: gis err rule: iter_granules_loop.induct)
  case (1 img l seen n)
  from "1.prems" show ?case
  proof (cases rule: iter_granules_loop_cases)
    case (fail e)
    then show ?thesis by (auto simp: walk_inv_def)
  next
    case (stop c gi)
    then show ?thesis using fromraw_n [of n c l geom gi] by (auto simp: walk_inv_def)
  next
    case (type_error c gi)
    then show ?thesis using fromraw_n [of n c l geom gi] by (auto simp: walk_inv_def)
  next
    case (loop c gi n')
    then show ?thesis using fromraw_n [of n c l geom gi] by (auto simp: walk_inv_def)
  next
    case (step c gi n' gis')
    have "walk_inv img l (insert n seen) n' gis' err"
      using step by (intro "1.IH" [of "[c]" gi n']) (auto simp: GranuleInfo_fromraw_bytes_def)
    with step show ?thesis by (auto intro: walk_inv_step)
  qed
qed

subsection \<open>The loop of the reader\<close>

lemma yield_fst: "fst (yield x r) = x # fst r" and yield_snd: "snd (yield x r) = snd r"
  by (simp_all add: yield_def)

lemma slice_to_length_le: "0 \<le> r \<Longrightarrow> int (length (slice_to xs r)) \<le> r"
  by (simp add: slice_to_def)

lemma iter_file_contents_loop_bound:
  "0 \<le> r \<Longrightarrow>
     int (length (concat (fst (iter_file_contents_loop img g0 b0 (Some r) gis ge)))) \<le> r"
proof (induction gis arbitrary: r)
  case Nil
  then show ?case by simp
next
  case (Cons gi gis)
  show ?case
  proof (cases "gi_free gi \<or> gi_n gi < g0")
    case True
    with Cons show ?thesis by auto
  next
    case False
    obtain ss se where grs: "granule_range_sectors (gi_n gi) = (ss, se)" by force
    obtain st en where srl: "sector_range_linear ss (gi_sectors_used gi) = (st, en)" by force
    show ?thesis
    proof (cases "pread img (en - st) st")
      case (Inl e)
      with False grs srl Cons.prems show ?thesis by simp
    next
      case (Inr data0)
      define data2 where "data2 =
        (if gi_n gi = g0 then slice_from (slice_to data0 (gi_bytes_used gi)) b0
         else slice_to data0 (gi_bytes_used gi))"
      define data where "data = (if int (length data2) > r then slice_to data2 r else data2)"
      have len: "int (length data) \<le> r"
        using Cons.prems by (simp add: data_def slice_to_length_le)
      then have "0 \<le> r - int (length data)" by simp
      from Cons.IH [OF this]
      have "int (length (concat (fst (iter_file_contents_loop img g0 b0
               (Some (r - int (length data))) gis ge)))) \<le> r - int (length data)" .
      moreover have "iter_file_contents_loop img g0 b0 (Some r) (gi # gis) ge =
          yield data (iter_file_contents_loop img g0 b0 (Some (r - int (length data))) gis ge)"
        using False grs srl Inr by (simp add: Let_def data_def data2_def)
      ultimately show ?thesis by (simp add: yield_fst)
    qed
  qed
qed

lemma fromraw_sectors_used:
  "GranuleInfo_fromraw n c l geom = Inr gi \<Longrightarrow> 0 \<le> gi_sectors_used gi \<and> gi_sectors_used gi \<le> 9"
  by (auto simp: GranuleInfo_fromraw_def Let_def geom_simps split: if_splits)

lemma fromraw_bytes_used:
  assumes "GranuleInfo_fromraw n c l geom = Inr gi" "0 \<le> l" "l \<le> 256"
  shows "0 \<le> gi_bytes_used gi \<and> gi_bytes_used gi \<le> 256 * gi_sectors_used gi"
proof -
  have nn: "0 \<le> uint c AND 15" by simp
  then have "uint c AND 15 \<noteq> 0 \<Longrightarrow> 1 \<le> uint c AND 15" by linarith
  with assms nn show ?thesis
    by (auto simp: GranuleInfo_fromraw_def Let_def geom_simps
          simp del: and_nonnegative_int_iff split: if_splits)
qed

lemma valid_bytes_used_nonneg:
  assumes "\<forall>gi\<in>set gis. \<exists>c. GranuleInfo_fromraw (gi_n gi) c l geom = Inr gi" "0 \<le> l" "l \<le> 256"
  shows "0 \<le> sum_list (map gi_bytes_used gis)"
proof (rule sum_list_nonneg)
  fix x assume "x \<in> set (map gi_bytes_used gis)"
  then obtain gi where "gi \<in> set gis" "x = gi_bytes_used gi" by auto
  with assms fromraw_bytes_used show "0 \<le> x" by blast
qed

lemma granule_data_in_range:
  assumes rd: "read_granule img n = Inr raw" and su: "0 \<le> su" "su \<le> 9"
    and grs: "granule_range_sectors n = (ss, se)"
  shows "0 \<le> ss \<and> ss * 256 + 256 * su \<le> int (length img)"
proof -
  from read_granule_Inr [OF rd] obtain sc where
    sc: "sector_count img = Inr sc" and n: "0 \<le> n" "n < min ((sc - 18) div 9) 192" by auto
  from sector_count_Inr [OF sc] have sz: "324 \<le> sc" "sc * 256 \<le> int (length img)" by auto
  from n have "n < (sc - 18) div 9" by simp
  then have n9: "9 * n + 9 \<le> sc - 18" by simp
  have "0 \<le> ss \<and> ss + su \<le> sc"
    using grs n(1) n9 su sz(1)
    by (auto simp: granule_range_sectors_def geom_simps Let_def split: if_splits)
  with sz(2) show ?thesis by auto
qed

lemma valid_gi_pread:
  assumes "valid_gi img l gi" and grs: "granule_range_sectors (gi_n gi) = (ss, se)"
    and srl: "sector_range_linear ss (gi_sectors_used gi) = (st, en)"
  shows "pread img (en - st) st =
           Inr (take (nat (256 * gi_sectors_used gi)) (drop (nat (256 * ss)) img))"
proof -
  from assms(1) obtain c where rd: "read_granule img (gi_n gi) = Inr [c]"
    and fr: "GranuleInfo_fromraw (gi_n gi) c l geom = Inr gi" by (auto simp: valid_gi_def)
  from fromraw_sectors_used [OF fr] have su: "0 \<le> gi_sectors_used gi" "gi_sectors_used gi \<le> 9"
    by auto
  from granule_data_in_range [OF rd su grs]
  have rng: "0 \<le> ss" "ss * 256 + 256 * gi_sectors_used gi \<le> int (length img)" by auto
  from srl have se: "st = ss * 256" "en = ss * 256 + 256 * gi_sectors_used gi"
    by (auto simp: sector_range_linear_def geom_simps Let_def)
  have "pread img (256 * gi_sectors_used gi) (ss * 256) =
          Inr (take (nat (256 * gi_sectors_used gi)) (drop (nat (ss * 256)) img))"
    using su rng by (intro pread_in_range) auto
  then show ?thesis by (simp add: se mult.commute)
qed

lemma iter_file_contents_loop_total:
  "\<forall>gi\<in>set gis. valid_gi img l gi \<Longrightarrow>
     snd (iter_file_contents_loop img g0 b0 (Some r) gis ge) = ge"
proof (induction gis arbitrary: r)
  case Nil
  then show ?case by simp
next
  case (Cons gi gis)
  then have v: "valid_gi img l gi" and nf: "\<not> gi_free gi" by (auto simp: valid_gi_def)
  obtain ss se where grs: "granule_range_sectors (gi_n gi) = (ss, se)" by force
  obtain st en where srl: "sector_range_linear ss (gi_sectors_used gi) = (st, en)" by force
  note pr = valid_gi_pread [OF v grs srl]
  from Cons show ?case
    using nf grs srl pr by (simp add: Let_def yield_snd)
qed

lemma iter_file_contents_loop_whole:
  assumes "\<forall>gi\<in>set gis. valid_gi img l gi" and l: "0 \<le> l" "l \<le> 256"
    and "sum_list (map gi_bytes_used gis) \<le> r"
  shows "fst (iter_file_contents_loop img 0 0 (Some r) gis ge) =
           map (\<lambda>gi. take (nat (gi_bytes_used gi))
                       (drop (nat (256 * fst (granule_range_sectors (gi_n gi)))) img)) gis"
  using assms(1,4)
proof (induction gis arbitrary: r)
  case Nil
  then show ?case by simp
next
  case (Cons gi gis)
  then have v: "valid_gi img l gi" and nf: "\<not> gi_free gi" by (auto simp: valid_gi_def)
  from v obtain c where rd: "read_granule img (gi_n gi) = Inr [c]"
    and fr: "GranuleInfo_fromraw (gi_n gi) c l geom = Inr gi" by (auto simp: valid_gi_def)
  from read_granule_Inr [OF rd] have n0: "0 \<le> gi_n gi" by auto
  from fromraw_sectors_used [OF fr] have su: "0 \<le> gi_sectors_used gi" "gi_sectors_used gi \<le> 9"
    by auto
  from fromraw_bytes_used [OF fr l]
  have bu: "0 \<le> gi_bytes_used gi" "gi_bytes_used gi \<le> 256 * gi_sectors_used gi" by auto
  obtain ss se where grs: "granule_range_sectors (gi_n gi) = (ss, se)" by force
  obtain st en where srl: "sector_range_linear ss (gi_sectors_used gi) = (st, en)" by force
  note pr = valid_gi_pread [OF v grs srl]
  from granule_data_in_range [OF rd su grs]
  have rng: "0 \<le> ss" "ss * 256 + 256 * gi_sectors_used gi \<le> int (length img)" by auto
  define data0 where "data0 = take (nat (256 * gi_sectors_used gi)) (drop (nat (256 * ss)) img)"
  define data where "data = take (nat (gi_bytes_used gi)) (drop (nat (256 * ss)) img)"
  have len0: "int (length data0) = 256 * gi_sectors_used gi"
    using rng su by (simp add: data0_def)
  have d1: "slice_to data0 (gi_bytes_used gi) = data"
    using bu by (simp add: slice_to_def data0_def data_def min_def)
  have lend: "int (length data) = gi_bytes_used gi"
    using d1 [symmetric] bu len0 by (simp add: slice_to_def)
  have d2: "(if gi_n gi = 0 then slice_from data 0 else data) = data"
    by (simp add: slice_from_def)
  have "0 \<le> sum_list (map gi_bytes_used gis)"
    using Cons.prems(1) l by (intro valid_bytes_used_nonneg [of gis l]) (auto simp: valid_gi_def)
  with Cons.prems have r: "gi_bytes_used gi \<le> r"
      "sum_list (map gi_bytes_used gis) \<le> r - gi_bytes_used gi"
    by auto
  have step: "iter_file_contents_loop img 0 0 (Some r) (gi # gis) ge =
      yield data (iter_file_contents_loop img 0 0 (Some (r - gi_bytes_used gi)) gis ge)"
    using nf n0 grs srl pr r(1)
    by (simp add: Let_def data0_def [symmetric] d1 d2 lend)
  have "fst (iter_file_contents_loop img 0 0 (Some (r - gi_bytes_used gi)) gis ge) =
      map (\<lambda>gi. take (nat (gi_bytes_used gi))
                       (drop (nat (256 * fst (granule_range_sectors (gi_n gi)))) img)) gis"
    using Cons.prems r(2) by (intro Cons.IH) auto
  then show ?case unfolding step by (simp add: yield_fst data_def grs)
qed

subsection \<open>The example image, evaluated\<close>

lemmas example_defs = example_image_def example_gmap_def example_slot0_def example_slot2_def example_slot3_def

lemma example_image_length: "length example_image = 82944"
  by (simp add: example_defs)

lemma example_granule_map_range: "granule_map_range example_image = Inr (78592, 78626)"
  by (simp add: granule_map_range_def granule_count_def sector_count_def getsize64_def
        sector_range_def sector_range_linear_def geom_simps example_image_length Let_def)

lemma example_read_granule:
  "0 \<le> n \<Longrightarrow> n < 34 \<Longrightarrow> read_granule example_image n = pread example_image 1 (78592 + n)"
  by (simp add: read_granule_def example_granule_map_range Let_def)

lemma example_granules:
  "read_granule example_image 1 = Inr [0xc1]"
  "read_granule example_image 5 = Inr [9]"
  "read_granule example_image 6 = Inr [7]"
  "read_granule example_image 7 = Inr [0xff]"
  "read_granule example_image 9 = Inr [5]"
  by (simp_all add: example_read_granule) (simp_all add: pread_def Let_def example_defs)

lemma iter_granules_loop_eval:
  "read_granule img n = Inr [c] \<Longrightarrow> GranuleInfo_fromraw n c l geom = Inr gi \<Longrightarrow>
     iter_granules_loop img l seen n =
       (if gi_last gi then ([gi], None)
        else case gi_next_n gi of
               None \<Rightarrow> ([gi], Some TypeError)
             | Some n' \<Rightarrow>
                 if n' \<in> insert n seen
                 then ([gi], Some (RecoverableCorruption LoopInGranuleMap))
                 else yield gi (iter_granules_loop img l (insert n seen) n'))"
  by (simp add: iter_granules_loop.simps [of img l seen n] GranuleInfo_fromraw_bytes_def)

lemma example_walk_5:
  "iter_granules example_image 5 0 =
     ([\<lparr>gi_raw_value = 9, gi_n = 5, gi_next_n = Some 9, gi_sectors_used = 9,
         gi_bytes_used = 2304, gi_last = False, gi_free = False, gi_geom = geom\<rparr>,
       \<lparr>gi_raw_value = 5, gi_n = 9, gi_next_n = Some 5, gi_sectors_used = 9,
         gi_bytes_used = 2304, gi_last = False, gi_free = False, gi_geom = geom\<rparr>],
      Some (RecoverableCorruption LoopInGranuleMap))"
proof -
  have f5: "GranuleInfo_fromraw 5 9 0 geom = Inr \<lparr>gi_raw_value = 9, gi_n = 5, gi_next_n = Some 9,
      gi_sectors_used = 9, gi_bytes_used = 2304, gi_last = False, gi_free = False, gi_geom = geom\<rparr>"
    by (simp add: GranuleInfo_fromraw_def geom_simps)
  have f9: "GranuleInfo_fromraw 9 5 0 geom = Inr \<lparr>gi_raw_value = 5, gi_n = 9, gi_next_n = Some 5,
      gi_sectors_used = 9, gi_bytes_used = 2304, gi_last = False, gi_free = False, gi_geom = geom\<rparr>"
    by (simp add: GranuleInfo_fromraw_def geom_simps)
  show ?thesis
    by (simp add: iter_granules_def iter_granules_loop_eval [OF example_granules(2) f5]
          iter_granules_loop_eval [OF example_granules(5) f9] yield_def)
qed

lemma example_walk_6:
  "iter_granules example_image 6 0 =
     ([\<lparr>gi_raw_value = 7, gi_n = 6, gi_next_n = Some 7, gi_sectors_used = 9,
         gi_bytes_used = 2304, gi_last = False, gi_free = False, gi_geom = geom\<rparr>,
       \<lparr>gi_raw_value = 255, gi_n = 7, gi_next_n = None, gi_sectors_used = 0,
         gi_bytes_used = 0, gi_last = True, gi_free = True, gi_geom = geom\<rparr>],
      None)"
proof -
  have f6: "GranuleInfo_fromraw 6 7 0 geom = Inr \<lparr>gi_raw_value = 7, gi_n = 6, gi_next_n = Some 7,
      gi_sectors_used = 9, gi_bytes_used = 2304, gi_last = False, gi_free = False, gi_geom = geom\<rparr>"
    by (simp add: GranuleInfo_fromraw_def geom_simps)
  have f7: "GranuleInfo_fromraw 7 0xff 0 geom = Inr \<lparr>gi_raw_value = 255, gi_n = 7, gi_next_n = None,
      gi_sectors_used = 0, gi_bytes_used = 0, gi_last = True, gi_free = True, gi_geom = geom\<rparr>"
    by (simp add: GranuleInfo_fromraw_def geom_simps)
  show ?thesis
    by (simp add: iter_granules_def iter_granules_loop_eval [OF example_granules(3) f6]
          iter_granules_loop_eval [OF example_granules(4) f7] yield_def)
qed

lemma example_walk_1:
  "iter_dentry_granules example_image example_dentry =
     ([\<lparr>gi_raw_value = 193, gi_n = 1, gi_next_n = None, gi_sectors_used = 1,
         gi_bytes_used = 100, gi_last = True, gi_free = False, gi_geom = geom\<rparr>],
      None)"
proof -
  have f1: "GranuleInfo_fromraw 1 0xc1 100 geom = Inr \<lparr>gi_raw_value = 193, gi_n = 1,
      gi_next_n = None, gi_sectors_used = 1, gi_bytes_used = 100, gi_last = True,
      gi_free = False, gi_geom = geom\<rparr>"
    by (simp add: GranuleInfo_fromraw_def geom_simps)
  show ?thesis
    by (simp add: iter_dentry_granules_def example_dentry_def iter_granules_def
          iter_granules_loop_eval [OF example_granules(1) f1])
qed

lemma example_data_1: "pread example_image 256 2304 = Inr (replicate 256 0x41)"
  by (simp add: pread_def Let_def example_defs)

lemma example_sizes: "get_file_sizes example_image example_dentry = Inr (100, 256, 9)"
  by (simp add: get_file_sizes_def example_walk_1 geom_simps)

lemma example_read_at_end:
  "pread_file example_image example_dentry (Some 10) 100 = Inr (replicate 10 0x41)"
  by (simp add: pread_file_def iter_file_contents_def example_walk_1 geom_simps
        granule_range_sectors_def sector_range_linear_def example_data_1 Let_def
        slice_to_def slice_from_def yield_def)

subsection \<open>The directory scan\<close>

lemma DirectoryEntry_fromraw_Inr:
  assumes "DirectoryEntry_fromraw n raw = Inr d"
  shows "de_n d = n" "length raw = 32" "de_filename d = take 8 raw"
    "de_null d \<longleftrightarrow> set raw = {0}"
    "de_free d \<longleftrightarrow> de_filename d ! 0 = 0 \<or> set (de_filename d) = {0xff}"
  using assms by (auto simp: DirectoryEntry_fromraw_def Let_def split: if_splits)

lemma iter_directory_entries_loop_origin:
  "d \<in> set (fst (iter_directory_entries_loop img inc idxs)) \<Longrightarrow>
     de_n d \<in> set idxs
     \<and> (\<exists>raw. read_directory_entry img (de_n d) = Inr raw
               \<and> DirectoryEntry_fromraw (de_n d) raw = Inr d)
     \<and> \<not> de_null d \<and> (inc \<or> \<not> de_free d)"
proof (induction idxs)
  case Nil
  then show ?case by simp
next
  case (Cons i idxs)
  show ?case
  proof (cases "read_directory_entry img i")
    case (Inl e)
    with Cons.prems show ?thesis by simp
  next
    case (Inr raw)
    show ?thesis
    proof (cases "DirectoryEntry_fromraw i raw")
      case (Inl e)
      with Cons.prems Inr show ?thesis by simp
    next
      case fr: (Inr dentry)
      note n = DirectoryEntry_fromraw_Inr(1) [OF fr]
      show ?thesis
      proof (cases "d = dentry \<and> \<not> de_null dentry \<and> (inc \<or> \<not> de_free dentry)")
        case True
        with Inr fr n show ?thesis by auto
      next
        case False
        with Cons.prems Inr fr
        have "d \<in> set (fst (iter_directory_entries_loop img inc idxs))"
          by (auto simp: yield_fst split: if_splits)
        from Cons.IH [OF this] show ?thesis by auto
      qed
    qed
  qed
qed

lemma iter_directory_entries_loop_sorted:
  "sorted_wrt (<) idxs \<Longrightarrow>
     sorted_wrt (<) (map de_n (fst (iter_directory_entries_loop img inc idxs)))"
proof (induction idxs)
  case Nil
  then show ?case by simp
next
  case (Cons i idxs)
  then have ih: "sorted_wrt (<) (map de_n (fst (iter_directory_entries_loop img inc idxs)))"
    and lt: "\<forall>j\<in>set idxs. i < j" by auto
  have below: "\<forall>d\<in>set (fst (iter_directory_entries_loop img inc idxs)). i < de_n d"
    using lt iter_directory_entries_loop_origin [of _ img inc idxs] by blast
  show ?case
  proof (cases "read_directory_entry img i")
    case (Inl e)
    then show ?thesis by simp
  next
    case (Inr raw)
    show ?thesis
    proof (cases "DirectoryEntry_fromraw i raw")
      case (Inl e)
      with Inr show ?thesis by simp
    next
      case fr: (Inr dentry)
      note n = DirectoryEntry_fromraw_Inr(1) [OF fr]
      from Inr fr ih below n show ?thesis by (auto simp: yield_fst)
    qed
  qed
qed

lemma iter_directory_entries_loop_complete:
  "snd (iter_directory_entries_loop img inc idxs) = None \<Longrightarrow> i \<in> set idxs \<Longrightarrow>
     read_directory_entry img i = Inr raw \<Longrightarrow> DirectoryEntry_fromraw i raw = Inr d \<Longrightarrow>
     \<not> de_null d \<Longrightarrow> inc \<or> \<not> de_free d \<Longrightarrow>
     d \<in> set (fst (iter_directory_entries_loop img inc idxs))"
proof (induction idxs)
  case Nil
  then show ?case by simp
next
  case (Cons j idxs)
  show ?case
  proof (cases "read_directory_entry img j")
    case (Inl e)
    with Cons.prems show ?thesis by simp
  next
    case (Inr rawj)
    show ?thesis
    proof (cases "DirectoryEntry_fromraw j rawj")
      case (Inl e)
      with Cons.prems Inr show ?thesis by simp
    next
      case fr: (Inr dj)
      from Cons.prems(1) Inr fr
      have rest: "snd (iter_directory_entries_loop img inc idxs) = None"
        by (auto simp: yield_snd split: if_splits)
      show ?thesis
      proof (cases "i = j")
        case True
        with Cons.prems Inr fr show ?thesis by (auto simp: yield_fst)
      next
        case False
        with Cons.prems have "i \<in> set idxs" by simp
        from Cons.IH [OF rest this Cons.prems(3,4,5,6)]
        show ?thesis using Inr fr by (auto simp: yield_fst)
      qed
    qed
  qed
qed

lemma range_py_directory: "range_py 0 (max_directory_entries geom) = [0..71]"
  by (simp add: range_py_def max_directory_entries_def geom_simps)

subsection \<open>The low nibble of a byte\<close>

lemma uint_and_15: "uint (b :: byte) AND 15 = uint b mod 16"
proof -
  have "uint b AND 15 = uint b AND mask 4" by (simp add: mask_eq_exp_minus_1)
  also have "\<dots> = take_bit 4 (uint b)" by (simp add: take_bit_eq_mask)
  also have "\<dots> = uint b mod 16" by (simp add: take_bit_eq_mod)
  finally show ?thesis .
qed

subsection \<open>Consequences of the invariant\<close>

lemma walk_inv_iter_granules:
  "iter_granules img first l = (gis, err) \<Longrightarrow> walk_inv img l {} first gis err"
  by (simp add: iter_granules_def walk_inv_loop)

lemma walk_length_bound:
  assumes "walk_inv img l {} first gis err"
  shows "length gis \<le> 192"
proof -
  from assms have d: "distinct (map gi_n gis)"
    and o: "\<forall>gi\<in>set gis. \<exists>c. read_granule img (gi_n gi) = Inr [c]"
    by (auto simp: walk_inv_def)
  have "set (map gi_n gis) \<subseteq> {0..<192}"
    using o read_granule_Inr by fastforce
  then have "card (set (map gi_n gis)) \<le> card {0..<192::int}"
    by (intro card_mono) auto
  moreover from d have "card (set (map gi_n gis)) = length (map gi_n gis)"
    by (rule distinct_card)
  ultimately show ?thesis by simp
qed

lemma iter_granules_loop_at_free_entry:
  assumes "read_granule img n = Inr [0xff]"
  shows "iter_granules_loop img l seen n =
     ([\<lparr>gi_raw_value = 255, gi_n = n, gi_next_n = None, gi_sectors_used = 0,
         gi_bytes_used = 0, gi_last = True, gi_free = True, gi_geom = geom\<rparr>], None)"
proof -
  have "GranuleInfo_fromraw n 0xff l geom =
      Inr \<lparr>gi_raw_value = 255, gi_n = n, gi_next_n = None, gi_sectors_used = 0,
           gi_bytes_used = 0, gi_last = True, gi_free = True, gi_geom = geom\<rparr>"
    by (simp add: GranuleInfo_fromraw_def)
  from iter_granules_loop_eval [OF assms this] show ?thesis by simp
qed

lemma example_walk_free_chain:
  "iter_dentry_granules example_image example_dentry_free_chain =
     ([\<lparr>gi_raw_value = 7, gi_n = 6, gi_next_n = Some 7, gi_sectors_used = 9,
         gi_bytes_used = 2304, gi_last = False, gi_free = False, gi_geom = geom\<rparr>,
       \<lparr>gi_raw_value = 255, gi_n = 7, gi_next_n = None, gi_sectors_used = 0,
         gi_bytes_used = 0, gi_last = True, gi_free = True, gi_geom = geom\<rparr>],
      None)"
  using example_walk_6
  by (simp add: iter_dentry_granules_def example_dentry_free_chain_def)

lemma example_data_6: "pread example_image 2304 13824 = Inr (replicate 2304 0x41)"
  by (simp add: pread_def Let_def example_defs)

subsection \<open>The granules of a chain without free entries\<close>

lemma walk_valid_gi:
  assumes "iter_dentry_granules img d = (gis, err)" and "\<forall>gi\<in>set gis. \<not> gi_free gi"
  shows "\<forall>gi\<in>set gis. valid_gi img (de_last_sector_bytes_used d) gi"
proof -
  from assms(1) have "walk_inv img (de_last_sector_bytes_used d) {} (de_first_granule d) gis err"
    by (simp add: iter_dentry_granules_def walk_inv_iter_granules)
  with assms(2) show ?thesis by (auto simp: walk_inv_def valid_gi_def)
qed

lemma valid_gi_content_length:
  assumes v: "valid_gi img l gi" and l: "0 \<le> l" "l \<le> 256"
  shows "int (length (take (nat (gi_bytes_used gi))
           (drop (nat (256 * fst (granule_range_sectors (gi_n gi)))) img))) = gi_bytes_used gi"
proof -
  from v obtain c where rd: "read_granule img (gi_n gi) = Inr [c]"
    and fr: "GranuleInfo_fromraw (gi_n gi) c l geom = Inr gi" by (auto simp: valid_gi_def)
  from fromraw_sectors_used [OF fr] have su: "0 \<le> gi_sectors_used gi" "gi_sectors_used gi \<le> 9"
    by auto
  from fromraw_bytes_used [OF fr l]
  have bu: "0 \<le> gi_bytes_used gi" "gi_bytes_used gi \<le> 256 * gi_sectors_used gi" by auto
  obtain ss se where grs: "granule_range_sectors (gi_n gi) = (ss, se)" by force
  from granule_data_in_range [OF rd su grs]
  have rng: "0 \<le> ss" "ss * 256 + 256 * gi_sectors_used gi \<le> int (length img)" by auto
  with bu show ?thesis by (simp add: grs)
qed

lemma length_concat_map:
  "\<forall>x\<in>set xs. int (length (f x)) = g x \<Longrightarrow> int (length (concat (map f xs))) = sum_list (map g xs)"
  by (induction xs) auto

subsection \<open>The first slot of the example directory\<close>

lemma iter_directory_entries_loop_first:
  "read_directory_entry img i = Inr raw \<Longrightarrow> DirectoryEntry_fromraw i raw = Inr d \<Longrightarrow>
     \<not> de_null d \<Longrightarrow> inc \<or> \<not> de_free d \<Longrightarrow>
     d \<in> set (fst (iter_directory_entries_loop img inc (i # idxs)))"
  by (auto simp: yield_fst)

lemma example_slot0_read: "read_directory_entry example_image 0 = Inr example_slot0"
  by (simp add: read_directory_entry_def directory_entry_range_def sector_range_def
        sector_range_linear_def geom_simps pread_def Let_def example_image_def example_gmap_def
        example_slot0_def)

lemma example_slot0_decoded: "DirectoryEntry_fromraw 0 example_slot0 = Inr example_dentry"
  by (simp add: DirectoryEntry_fromraw_def example_slot0_def example_dentry_def Let_def)

lemma example_dentry_enumerated:
  "example_dentry \<in> set (fst (iter_directory_entries example_image False))"
proof -
  have "range_py 0 (max_directory_entries geom) = 0 # [1..71]"
    unfolding range_py_directory by (simp add: upto_rec1 [of 0 71])
  moreover have "\<not> de_null example_dentry" "\<not> de_free example_dentry"
    by (simp_all add: example_dentry_def)
  ultimately show ?thesis
    unfolding iter_directory_entries_def
    using iter_directory_entries_loop_first [OF example_slot0_read example_slot0_decoded]
    by simp
qed

subsection \<open>Unbound names\<close>

lemma load_global_unbound: "load_global name = Inl (NameError name)"
  by (simp add: load_global_def module_globals_def)

lemma get_fs_stats_never_returns: "get_fs_stats img \<noteq> Inr stats"
  by (auto simp: get_fs_stats_def load_global_unbound split: sum.splits prod.splits)

lemma get_fs_stats_NameError:
  "count_granules img = Inr g \<Longrightarrow> count_directory_entries img = Inr dd \<Longrightarrow>
     sector_count img = Inr sc \<Longrightarrow> get_fs_stats img = Inl (NameError ''sectors_per_granule'')"
  by (auto simp: get_fs_stats_def load_global_unbound split: sum.splits prod.splits)

subsection \<open>The freshly formatted image, evaluated\<close>

lemma blank_image_length: "length blank_image = 82944"
  by (simp add: blank_image_def)

lemma blank_sector_count: "sector_count blank_image = Inr 324"
  by (simp add: sector_count_def getsize64_def blank_image_length geom_simps)

lemma blank_read_granule_map: "read_granule_map blank_image = Inr (replicate 34 0xff)"
proof -
  have "granule_map_range blank_image = Inr (78592, 78626)"
    by (simp add: granule_map_range_def granule_count_def blank_sector_count
          sector_range_def sector_range_linear_def geom_simps)
  then show ?thesis
    by (simp add: read_granule_map_def pread_def blank_image_def Let_def)
qed

lemma count_granules_loop_all_free:
  "\<forall>p\<in>set xs. snd p = 0xff \<Longrightarrow>
     count_granules_loop xs (t, f, u) = Inr (t + int (length xs), f + int (length xs), u)"
proof (induction xs arbitrary: t f)
  case Nil
  then show ?case by simp
next
  case (Cons p xs)
  obtain i c where p: "p = (i, c)" by force
  with Cons.prems have c: "c = 0xff" by simp
  have fr: "GranuleInfo_fromraw i 0xff (bytes_per_sector geom) geom =
      Inr \<lparr>gi_raw_value = 255, gi_n = i, gi_next_n = None, gi_sectors_used = 0,
           gi_bytes_used = 0, gi_last = True, gi_free = True, gi_geom = geom\<rparr>"
    by (simp add: GranuleInfo_fromraw_def)
  from Cons.prems have "\<forall>p\<in>set xs. snd p = 0xff" by simp
  from Cons.IH [OF this, of "t + 1" "f + 1"] show ?case
    by (simp add: p c fr)
qed

lemma blank_count_granules: "count_granules blank_image = Inr (34, 34, 0)"
proof -
  have "\<forall>p\<in>set (enumerate_py (replicate 34 (0xff :: byte))). snd p = 0xff"
    by (auto simp: enumerate_py_def dest: set_zip_rightD)
  from count_granules_loop_all_free [OF this, of 0 0 0] show ?thesis
    by (simp add: count_granules_def blank_read_granule_map enumerate_py_def)
qed

lemma blank_read_directory_entry:
  assumes "0 \<le> i" "i < 72"
  shows "read_directory_entry blank_image i = Inr (replicate 32 0xff)"
proof -
  have rng: "directory_entry_range i = Inr (78848 + i * 32, 78848 + i * 32 + 32)"
    using assms
    by (simp add: directory_entry_range_def sector_range_def sector_range_linear_def
          geom_simps Let_def)
  have "nat (78848 + i * 32) + 32 \<le> 82944" using assms by simp
  then have "min (82944 - nat (78848 + i * 32)) 32 = 32" by simp
  with assms show ?thesis
    by (simp add: read_directory_entry_def rng pread_def Let_def blank_image_def)
qed

lemma blank_entry_free:
  "\<exists>d. DirectoryEntry_fromraw i (replicate 32 0xff) = Inr d \<and> de_free d \<and> \<not> de_null d"
  by (simp add: DirectoryEntry_fromraw_def Let_def)

lemma blank_iter_directory_entries_loop:
  "\<forall>i\<in>set idxs. 0 \<le> i \<and> i < 72 \<Longrightarrow>
     snd (iter_directory_entries_loop blank_image True idxs) = None
     \<and> length (fst (iter_directory_entries_loop blank_image True idxs)) = length idxs
     \<and> (\<forall>d\<in>set (fst (iter_directory_entries_loop blank_image True idxs)). de_free d)"
proof (induction idxs)
  case Nil
  then show ?case by simp
next
  case (Cons i idxs)
  then have i: "0 \<le> i" "i < 72" by auto
  from blank_entry_free obtain d where
    d: "DirectoryEntry_fromraw i (replicate 32 0xff) = Inr d" "de_free d" "\<not> de_null d"
    by blast
  from Cons show ?case
    by (simp add: blank_read_directory_entry [OF i] d yield_fst yield_snd)
qed

lemma count_directory_entries_loop_all_free:
  "\<forall>d\<in>set ds. de_free d \<Longrightarrow>
     count_directory_entries_loop ds (t, f, u) = (t + int (length ds), f + int (length ds), u)"
  by (induction ds arbitrary: t f) auto

lemma blank_count_directory_entries: "count_directory_entries blank_image = Inr (72, 72, 0)"
proof -
  have "\<forall>i\<in>set [0..71::int]. 0 \<le> i \<and> i < 72" by simp
  from blank_iter_directory_entries_loop [OF this]
  have ok: "snd (iter_directory_entries blank_image True) = None"
    and len: "length (fst (iter_directory_entries blank_image True)) = 72"
    and free: "\<forall>d\<in>set (fst (iter_directory_entries blank_image True)). de_free d"
    by (simp_all add: iter_directory_entries_def range_py_directory)
  obtain ds where ds: "iter_directory_entries blank_image True = (ds, None)"
    using ok by (cases "iter_directory_entries blank_image True") auto
  with len free count_directory_entries_loop_all_free [of ds 0 0 0] show ?thesis
    by (simp add: count_directory_entries_def)
qed

section \<open>Properties\<close>

subsection \<open>Writing a new file\<close>

text \<open>
  C1 (the code departs from it). \<^verbatim>\<open>write_new_file\<close> never writes anything: on every
  image and for every file it raises \<^verbatim>\<open>NameError\<close> for the name \<^verbatim>\<open>length\<close>, which is
  a local variable of \<^verbatim>\<open>write_new_file\<close> but is read in \<^verbatim>\<open>_write_new_file\<close>. So no
  file can be written and read back.
\<close>

theorem write_new_file_raises:
  "write_new_file img filename extension filetype ascii_flag content =
     Some (Inl (NameError ''length''))"
  by (simp add: write_new_file_def write_new_file_locked_def load_global_unbound)

subsection \<open>Reading at the end of a file\<close>

text \<open>
  C2 (the code departs from it). The file of the example entry has the logical size 100,
  yet a read of 10 bytes at offset 100 returns 10 bytes, and a read of 50 bytes at offset
  80 returns 50 bytes: \<^verbatim>\<open>iter_file_contents\<close> compares the position \<open>g0\<close> of the offset
  in the file with the granule number \<open>gi.n\<close> on the disk, so the offset is ignored for a
  file that lives in granule 1.
\<close>

theorem pread_file_at_end_of_file:
  "get_file_sizes example_image example_dentry = Inr (100, 256, 9)
   \<and> pread_file example_image example_dentry (Some 10) 100 = Inr (replicate 10 0x41)
   \<and> pread_file example_image example_dentry (Some 50) 80 = Inr (replicate 50 0x41)"
  by (simp add: example_sizes example_read_at_end)
     (simp add: pread_file_def iter_file_contents_def example_walk_1 geom_simps
        granule_range_sectors_def sector_range_linear_def example_data_1 Let_def
        slice_to_def slice_from_def yield_def)

subsection \<open>Reading a whole file\<close>

text \<open>
  C3. For a directory entry whose chain walk succeeds without meeting a free granule and
  whose \<open>last_sector_bytes_used\<close> is at most 256 (it is an unsigned field, so at least 0),
  reading at offset 0 with a length of at least the logical size \<open>S\<close> that
  \<^verbatim>\<open>get_file_sizes\<close> reports returns exactly \<open>S\<close> bytes: the concatenation, in chain
  order, of the first \<open>bytes_used\<close> bytes of every granule, not the padded granules.
\<close>

theorem pread_file_whole_file:
  assumes sizes: "get_file_sizes img d = Inr (S, bps, secs)"
    and nofree: "\<forall>gi\<in>set (fst (iter_dentry_granules img d)). \<not> gi_free gi"
    and l: "0 \<le> de_last_sector_bytes_used d" "de_last_sector_bytes_used d \<le> 256"
    and huge: "S \<le> L"
  shows "\<exists>data. pread_file img d (Some L) 0 = Inr data \<and> int (length data) = S
      \<and> S = sum_list (map gi_bytes_used (fst (iter_dentry_granules img d)))
      \<and> data = concat (map (\<lambda>gi. take (nat (gi_bytes_used gi))
                  (drop (nat (256 * fst (granule_range_sectors (gi_n gi)))) img))
                (fst (iter_dentry_granules img d)))"
proof -
  obtain gis err where walk: "iter_dentry_granules img d = (gis, err)" by force
  from sizes walk have err: "err = None" and S: "S = sum_list (map gi_bytes_used gis)"
    by (auto simp: get_file_sizes_def Let_def split: option.splits)
  from nofree walk have "\<forall>gi\<in>set gis. \<not> gi_free gi" by simp
  from walk_valid_gi [OF walk this]
  have v: "\<forall>gi\<in>set gis. valid_gi img (de_last_sector_bytes_used d) gi" .
  let ?f = "\<lambda>gi. take (nat (gi_bytes_used gi))
                  (drop (nat (256 * fst (granule_range_sectors (gi_n gi)))) img)"
  have chunks: "fst (iter_file_contents_loop img 0 0 (Some L) gis None) = map ?f gis"
    using v l huge unfolding S by (rule iter_file_contents_loop_whole)
  have ok: "snd (iter_file_contents_loop img 0 0 (Some L) gis None) = None"
    using v by (rule iter_file_contents_loop_total)
  have "iter_file_contents img d (Some L) 0 = (map ?f gis, None)"
    using chunks ok by (simp add: iter_file_contents_def walk err geom_simps prod_eq_iff)
  then have rd: "pread_file img d (Some L) 0 = Inr (concat (map ?f gis))"
    by (simp add: pread_file_def)
  have "int (length (concat (map ?f gis))) = sum_list (map gi_bytes_used gis)"
  proof (rule length_concat_map, rule ballI)
    fix gi assume "gi \<in> set gis"
    with v have "valid_gi img (de_last_sector_bytes_used d) gi" by blast
    then show "int (length (?f gi)) = gi_bytes_used gi"
      using l by (rule valid_gi_content_length)
  qed
  with rd S walk show ?thesis by simp
qed

theorem pread_file_whole_file_witness:
  "\<exists>data. pread_file example_image example_dentry (Some 1000) 0 = Inr data
     \<and> int (length data) = 100
     \<and> 100 = sum_list (map gi_bytes_used (fst (iter_dentry_granules example_image example_dentry)))
     \<and> data = concat (map (\<lambda>gi. take (nat (gi_bytes_used gi))
                  (drop (nat (256 * fst (granule_range_sectors (gi_n gi)))) example_image))
                (fst (iter_dentry_granules example_image example_dentry)))"
proof (rule pread_file_whole_file [OF example_sizes])
  show "\<forall>gi\<in>set (fst (iter_dentry_granules example_image example_dentry)). \<not> gi_free gi"
    by (simp add: example_walk_1)
  show "0 \<le> de_last_sector_bytes_used example_dentry"
    and "de_last_sector_bytes_used example_dentry \<le> 256"
    by (simp_all add: example_dentry_def)
  show "(100::int) \<le> 1000" by simp
qed

subsection \<open>Decoding a granule map entry\<close>

text \<open>
  C4 (as amended). \<^verbatim>\<open>GranuleInfo.fromraw\<close> realises this table for every byte \<open>b\<close> and
  every \<open>last_sector_bytes_used\<close>: \<open>b\<close> below 0xC0 is a continuation entry with next
  granule \<open>b\<close> and all 9 sectors (2304 bytes) used; \<open>b\<close> from 0xC1 to 0xC9 is a terminal
  entry whose \<open>sectors_used\<close> is the low nibble and whose \<open>bytes_used\<close> is
  \<open>(sectors_used - 1) * 256 + last_sector_bytes_used\<close>; \<open>b\<close> = 0xC0 with
  \<open>last_sector_bytes_used\<close> = 0 is a terminal entry with 0 sectors and 0 bytes;
  \<open>b\<close> = 0xFF is a free entry; every other value, 0xCA to 0xFE, fails with
  \<^verbatim>\<open>RecoverableCorruption\<close> carrying the granule number and the value, and with no
  other exception.
\<close>

theorem GranuleInfo_fromraw_decoding_table:
  "(uint b < 0xc0 \<longrightarrow>
      GranuleInfo_fromraw n b l geom =
        Inr \<lparr>gi_raw_value = uint b, gi_n = n, gi_next_n = Some (uint b), gi_sectors_used = 9,
             gi_bytes_used = 2304, gi_last = False, gi_free = False, gi_geom = geom\<rparr>)
   \<and> (0xc1 \<le> uint b \<and> uint b \<le> 0xc9 \<longrightarrow>
      GranuleInfo_fromraw n b l geom =
        Inr \<lparr>gi_raw_value = uint b, gi_n = n, gi_next_n = None,
             gi_sectors_used = uint b mod 16,
             gi_bytes_used = (uint b mod 16 - 1) * 256 + l,
             gi_last = True, gi_free = False, gi_geom = geom\<rparr>)
   \<and> (uint b = 0xc0 \<and> l = 0 \<longrightarrow>
      GranuleInfo_fromraw n b l geom =
        Inr \<lparr>gi_raw_value = uint b, gi_n = n, gi_next_n = None, gi_sectors_used = 0,
             gi_bytes_used = 0, gi_last = True, gi_free = False, gi_geom = geom\<rparr>)
   \<and> (uint b = 0xff \<longrightarrow>
      GranuleInfo_fromraw n b l geom =
        Inr \<lparr>gi_raw_value = uint b, gi_n = n, gi_next_n = None, gi_sectors_used = 0,
             gi_bytes_used = 0, gi_last = True, gi_free = True, gi_geom = geom\<rparr>)
   \<and> (0xca \<le> uint b \<and> uint b < 0xff \<longrightarrow>
      GranuleInfo_fromraw n b l geom =
        Inl (RecoverableCorruption (GranuleOutOfRange n (uint b))))"
proof -
  have m: "0xc1 \<le> uint b \<Longrightarrow> uint b \<le> 0xc9 \<Longrightarrow> 1 \<le> uint b mod 16 \<and> uint b mod 16 \<le> 9"
    by presburger
  show ?thesis
    using m by (auto simp: GranuleInfo_fromraw_def Let_def geom_simps uint_and_15)
qed

theorem GranuleInfo_fromraw_decoding_table_witness:
  "GranuleInfo_fromraw 4 0xc3 100 geom =
     Inr \<lparr>gi_raw_value = 0xc3, gi_n = 4, gi_next_n = None, gi_sectors_used = 3,
          gi_bytes_used = 612, gi_last = True, gi_free = False, gi_geom = geom\<rparr>
   \<and> GranuleInfo_fromraw 4 0xfe 100 geom =
       Inl (RecoverableCorruption (GranuleOutOfRange 4 0xfe))"
  using GranuleInfo_fromraw_decoding_table [where b = "0xc3" and n = 4 and l = 100]
        GranuleInfo_fromraw_decoding_table [where b = "0xfe" and n = 4 and l = 100]
  by simp

text \<open>
  The claim as stated fails at 0xCA, which is not a terminal code but a corruption.
\<close>

theorem GranuleInfo_fromraw_0xca_counterexample:
  "GranuleInfo_fromraw 4 0xca 100 geom = Inl (RecoverableCorruption (GranuleOutOfRange 4 0xca))"
  by (simp add: GranuleInfo_fromraw_def Let_def geom_simps)

subsection \<open>A free entry inside a chain\<close>

text \<open>
  C5 (the code departs from it). In the example image the chain from granule 6 reaches
  granule 7, whose map entry is 0xFF (\<open>example_granules\<close>). The walk does not raise
  \<^verbatim>\<open>RecoverableCorruption\<close>: it yields the free entry as its final granule and ends as
  it does at a terminal entry. \<^verbatim>\<open>get_file_sizes\<close> then reports the chain as a file of
  2304 bytes in 18 sectors, and the reader stops only on its assertion
  \<^verbatim>\<open>not gi.free\<close>. By \<open>iter_granules_loop_at_free_entry\<close> a walk that arrives at a
  free entry ends in this way on every image.
\<close>

theorem iter_granules_free_entry_ends_walk_silently:
  "iter_granules example_image 6 0 =
     ([\<lparr>gi_raw_value = 7, gi_n = 6, gi_next_n = Some 7, gi_sectors_used = 9,
         gi_bytes_used = 2304, gi_last = False, gi_free = False, gi_geom = geom\<rparr>,
       \<lparr>gi_raw_value = 255, gi_n = 7, gi_next_n = None, gi_sectors_used = 0,
         gi_bytes_used = 0, gi_last = True, gi_free = True, gi_geom = geom\<rparr>],
      None)
   \<and> get_file_sizes example_image example_dentry_free_chain = Inr (2304, 256, 18)
   \<and> pread_file example_image example_dentry_free_chain (Some 10) 0 = Inl AssertionError"
proof -
  have sizes: "get_file_sizes example_image example_dentry_free_chain = Inr (2304, 256, 18)"
    by (simp add: get_file_sizes_def example_walk_free_chain geom_simps)
  have rd: "pread_file example_image example_dentry_free_chain (Some 10) 0 = Inl AssertionError"
    by (simp add: pread_file_def iter_file_contents_def example_walk_free_chain geom_simps
          granule_range_sectors_def sector_range_linear_def example_data_6 Let_def
          slice_to_def slice_from_def yield_def)
  from sizes rd show ?thesis by (simp add: example_walk_6)
qed

subsection \<open>The walk visits every granule at most once\<close>

text \<open>
  C6. For every image and starting granule the walk \<^verbatim>\<open>iter_granules\<close> terminates (it is
  a total function: the visited set grows inside the at most 192 entries of the map) and
  yields every granule number at most once, so at most 192 granules. It stops at the
  first terminal entry: no yielded granule but the final one is flagged last, and the
  walk ends without an exception exactly when the final one is. It ends with
  \<^verbatim>\<open>RecoverableCorruption("loop in granule map")\<close> exactly when the final granule it
  yielded is a continuation entry pointing at a granule already visited. For the cycle
  5, 9, 5 it yields 5 and 9 and then fails.
\<close>

theorem iter_granules_visits_once:
  assumes "iter_granules img first l = (gis, err)"
  shows "distinct (map gi_n gis) \<and> length gis \<le> 192
    \<and> (\<forall>gi\<in>set (butlast gis). \<not> gi_last gi)
    \<and> (err = None \<longleftrightarrow> gis \<noteq> [] \<and> gi_last (last gis))
    \<and> (err = Some (RecoverableCorruption LoopInGranuleMap) \<longleftrightarrow>
         gis \<noteq> [] \<and> \<not> gi_last (last gis)
         \<and> (\<exists>m\<in>set (map gi_n gis). gi_next_n (last gis) = Some m))"
proof -
  note inv = walk_inv_iter_granules [OF assms]
  from walk_length_bound [OF inv] have "length gis \<le> 192" .
  with inv show ?thesis unfolding walk_inv_def by simp
qed

theorem iter_granules_visits_once_witness:
  "iter_granules example_image 5 0 =
     ([\<lparr>gi_raw_value = 9, gi_n = 5, gi_next_n = Some 9, gi_sectors_used = 9,
         gi_bytes_used = 2304, gi_last = False, gi_free = False, gi_geom = geom\<rparr>,
       \<lparr>gi_raw_value = 5, gi_n = 9, gi_next_n = Some 5, gi_sectors_used = 9,
         gi_bytes_used = 2304, gi_last = False, gi_free = False, gi_geom = geom\<rparr>],
      Some (RecoverableCorruption LoopInGranuleMap))
   \<and> distinct (map gi_n (fst (iter_granules example_image 5 0)))
   \<and> length (fst (iter_granules example_image 5 0)) \<le> 192"
  using iter_granules_visits_once [OF example_walk_5] example_walk_5 by simp

subsection \<open>Filesystem statistics\<close>

text \<open>
  C7 (the code departs from it). On the freshly formatted image the granule map and the
  directory are counted without error (34 granules, all free; 72 slots, all free) and the
  image has 324 sectors, yet \<^verbatim>\<open>get_fs_stats\<close> raises \<^verbatim>\<open>NameError\<close>: it reads the
  unbound global name \<^verbatim>\<open>sectors_per_granule\<close> where \<^verbatim>\<open>self.geom.sectors_per_granule\<close>
  is meant. By \<open>get_fs_stats_never_returns\<close> it returns on no image at all.
\<close>

theorem get_fs_stats_raises:
  "count_granules blank_image = Inr (34, 34, 0)
   \<and> count_directory_entries blank_image = Inr (72, 72, 0)
   \<and> sector_count blank_image = Inr 324
   \<and> get_fs_stats blank_image = Inl (NameError ''sectors_per_granule'')"
  using get_fs_stats_NameError [OF blank_count_granules blank_count_directory_entries
      blank_sector_count]
  by (simp add: blank_count_granules blank_count_directory_entries blank_sector_count)

subsection \<open>Granules skip the directory track\<close>

text \<open>
  C8. For every granule number \<open>g\<close>, \<^verbatim>\<open>granule_range_sectors\<close> returns the sector pair
  \<open>(9g, 9g + 9)\<close> when \<open>9g\<close> is below sector 306, the start of the directory track,
  and \<open>(9g + 18, 9g + 27)\<close> otherwise. So the (non-empty) sector range of a granule
  never overlaps the sectors 306 to 323 of the directory track: it ends at or before 306,
  or starts at or after 324.
\<close>

theorem granule_range_sectors_skips_directory_track:
  "granule_range_sectors g =
     (if 9 * g < 306 then (9 * g, 9 * g + 9) else (9 * g + 18, 9 * g + 27))
   \<and> fst (granule_range_sectors g) < snd (granule_range_sectors g)
   \<and> (snd (granule_range_sectors g) \<le> 306 \<or> 324 \<le> fst (granule_range_sectors g))"
  by (auto simp: granule_range_sectors_def geom_simps Let_def)

theorem granule_range_sectors_skips_directory_track_witness:
  "granule_range_sectors 33 = (297, 306) \<and> granule_range_sectors 34 = (324, 333)"
  using granule_range_sectors_skips_directory_track [of 33]
        granule_range_sectors_skips_directory_track [of 34]
  by simp

subsection \<open>Enumerating the directory\<close>

text \<open>
  C9. For every image, every entry that \<^verbatim>\<open>iter_directory_entries(include_free=False)\<close>
  yields was decoded from a slot whose 32 raw bytes are not all zero, and its filename is
  neither all 0xFF nor starts with 0x00. With \<^verbatim>\<open>include_free=True\<close> the all-zero slots
  are still skipped. In both modes the entries come in strictly increasing slot order, and
  when the scan with \<^verbatim>\<open>include_free=True\<close> completes, every slot that is not all zero
  has been yielded.
\<close>

theorem iter_directory_entries_skips_null_and_free:
  "(\<forall>d\<in>set (fst (iter_directory_entries img False)).
      \<exists>raw. read_directory_entry img (de_n d) = Inr raw
        \<and> DirectoryEntry_fromraw (de_n d) raw = Inr d
        \<and> set raw \<noteq> {0} \<and> set (de_filename d) \<noteq> {0xff} \<and> de_filename d ! 0 \<noteq> 0)
   \<and> (\<forall>d\<in>set (fst (iter_directory_entries img True)).
      \<exists>raw. read_directory_entry img (de_n d) = Inr raw
        \<and> DirectoryEntry_fromraw (de_n d) raw = Inr d \<and> set raw \<noteq> {0})
   \<and> sorted_wrt (<) (map de_n (fst (iter_directory_entries img inc)))
   \<and> (snd (iter_directory_entries img True) = None \<longrightarrow>
        (\<forall>i raw d. 0 \<le> i \<and> i < 72 \<and> read_directory_entry img i = Inr raw
            \<and> DirectoryEntry_fromraw i raw = Inr d \<and> set raw \<noteq> {0}
          \<longrightarrow> d \<in> set (fst (iter_directory_entries img True))))"
proof (intro conjI ballI impI allI)
  fix d assume "d \<in> set (fst (iter_directory_entries img False))"
  then have "d \<in> set (fst (iter_directory_entries_loop img False [0..71]))"
    by (simp add: iter_directory_entries_def range_py_directory)
  from iter_directory_entries_loop_origin [OF this]
  obtain raw where raw: "read_directory_entry img (de_n d) = Inr raw"
      "DirectoryEntry_fromraw (de_n d) raw = Inr d"
    and flags: "\<not> de_null d" "\<not> de_free d" by auto
  from DirectoryEntry_fromraw_Inr(4,5) [OF raw(2)] flags
  have "set raw \<noteq> {0}" "set (de_filename d) \<noteq> {0xff}" "de_filename d ! 0 \<noteq> 0" by auto
  with raw show "\<exists>raw. read_directory_entry img (de_n d) = Inr raw
        \<and> DirectoryEntry_fromraw (de_n d) raw = Inr d
        \<and> set raw \<noteq> {0} \<and> set (de_filename d) \<noteq> {0xff} \<and> de_filename d ! 0 \<noteq> 0"
    by blast
next
  fix d assume "d \<in> set (fst (iter_directory_entries img True))"
  then have "d \<in> set (fst (iter_directory_entries_loop img True [0..71]))"
    by (simp add: iter_directory_entries_def range_py_directory)
  from iter_directory_entries_loop_origin [OF this]
  obtain raw where raw: "read_directory_entry img (de_n d) = Inr raw"
      "DirectoryEntry_fromraw (de_n d) raw = Inr d"
    and flags: "\<not> de_null d" by auto
  from DirectoryEntry_fromraw_Inr(4) [OF raw(2)] flags have "set raw \<noteq> {0}" by auto
  with raw show "\<exists>raw. read_directory_entry img (de_n d) = Inr raw
        \<and> DirectoryEntry_fromraw (de_n d) raw = Inr d \<and> set raw \<noteq> {0}"
    by blast
next
  show "sorted_wrt (<) (map de_n (fst (iter_directory_entries img inc)))"
    unfolding iter_directory_entries_def range_py_directory
    by (rule iter_directory_entries_loop_sorted) simp
next
  fix i raw d
  assume ok: "snd (iter_directory_entries img True) = None"
    and h: "0 \<le> i \<and> i < 72 \<and> read_directory_entry img i = Inr raw
            \<and> DirectoryEntry_fromraw i raw = Inr d \<and> set raw \<noteq> {0}"
  from h DirectoryEntry_fromraw_Inr(4) [of i raw d] have nn: "\<not> de_null d" by auto
  from h have mem: "i \<in> set [0..71]" by simp
  from ok have ok': "snd (iter_directory_entries_loop img True [0..71]) = None"
    by (simp add: iter_directory_entries_def range_py_directory)
  from h have rd: "read_directory_entry img i = Inr raw"
    and fr: "DirectoryEntry_fromraw i raw = Inr d" by auto
  from iter_directory_entries_loop_complete [OF ok' mem rd fr nn]
  show "d \<in> set (fst (iter_directory_entries img True))"
    by (simp add: iter_directory_entries_def range_py_directory)
qed

theorem iter_directory_entries_skips_null_and_free_witness:
  "example_dentry \<in> set (fst (iter_directory_entries example_image False))
   \<and> (\<exists>raw. read_directory_entry example_image (de_n example_dentry) = Inr raw
        \<and> DirectoryEntry_fromraw (de_n example_dentry) raw = Inr example_dentry
        \<and> set raw \<noteq> {0} \<and> set (de_filename example_dentry) \<noteq> {0xff}
        \<and> de_filename example_dentry ! 0 \<noteq> 0)"
  using iter_directory_entries_skips_null_and_free [where img = example_image and inc = False]
    example_dentry_enumerated
  by blast

subsection \<open>A read never returns more than it was asked for\<close>

text \<open>
  C10. For every requested length \<open>L \<ge> 0\<close> and every offset, the chunks that
  \<^verbatim>\<open>iter_file_contents\<close> yields hold at most \<open>L\<close> bytes in total, so whatever
  \<^verbatim>\<open>pread_file\<close> returns has at most \<open>L\<close> bytes; and when the chain walk of the entry
  succeeds without meeting a free granule, \<^verbatim>\<open>pread_file\<close> does return.
\<close>

theorem pread_file_at_most_length:
  assumes "0 \<le> L"
  shows "int (length (concat (fst (iter_file_contents img d (Some L) off)))) \<le> L
     \<and> (\<forall>data. pread_file img d (Some L) off = Inr data \<longrightarrow> int (length data) \<le> L)
     \<and> (snd (iter_dentry_granules img d) = None
          \<and> (\<forall>gi\<in>set (fst (iter_dentry_granules img d)). \<not> gi_free gi)
        \<longrightarrow> (\<exists>data. pread_file img d (Some L) off = Inr data))"
proof -
  obtain gis err where walk: "iter_dentry_granules img d = (gis, err)" by force
  let ?g0 = "off div (bytes_per_sector geom * sectors_per_granule geom)"
  let ?b0 = "off mod (bytes_per_sector geom * sectors_per_granule geom)"
  have ifc: "iter_file_contents img d (Some L) off =
      iter_file_contents_loop img ?g0 ?b0 (Some L) gis err"
    by (simp add: iter_file_contents_def walk Let_def)
  have bound: "int (length (concat (fst (iter_file_contents img d (Some L) off)))) \<le> L"
    unfolding ifc using assms by (rule iter_file_contents_loop_bound)
  have ret: "\<forall>data. pread_file img d (Some L) off = Inr data \<longrightarrow> int (length data) \<le> L"
    using bound by (auto simp: pread_file_def split: prod.splits option.splits)
  have total: "\<exists>data. pread_file img d (Some L) off = Inr data"
    if "snd (iter_dentry_granules img d) = None"
      and "\<forall>gi\<in>set (fst (iter_dentry_granules img d)). \<not> gi_free gi"
  proof -
    from that walk have err: "err = None" and nf: "\<forall>gi\<in>set gis. \<not> gi_free gi" by auto
    from walk_valid_gi [OF walk nf]
    have "snd (iter_file_contents_loop img ?g0 ?b0 (Some L) gis err) = err"
      by (rule iter_file_contents_loop_total)
    with err ifc show ?thesis
      by (auto simp: pread_file_def split: prod.splits option.splits)
  qed
  from bound ret total show ?thesis by blast
qed

theorem pread_file_at_most_length_witness:
  "pread_file example_image example_dentry (Some 10) 100 = Inr (replicate 10 0x41)
   \<and> int (length (concat (fst (iter_file_contents example_image example_dentry (Some 10) 100)))) \<le> 10"
  using pread_file_at_most_length [where L = 10 and img = example_image
      and d = example_dentry and off = 100] example_read_at_end
  by simp

end
